theory Spec2Isabelle
  imports Complex_Main "HOL-Library.Sublist" "HOL-Library.AList"
begin

section \<open>Rate limiter (middleware/rateLimit.ts)\<close>

text \<open>
  The limiter keeps one \<open>RateLimitStore\<close> object per client key in a process-wide
  \<open>Map\<close>. A JavaScript \<open>Map\<close> holds each key once and iterates in insertion order, so
  the store is an association list: \<open>store.get\<close> is \<open>map_of\<close>, \<open>store.set\<close> is
  \<open>AList.update\<close> (an existing key keeps its place, a new one goes to the end) and
  \<open>store.delete\<close> is \<open>AList.delete\<close>. Timestamps (\<open>Date.now()\<close>, milliseconds) and the
  two configured numbers \<open>RATE_LIMIT_WINDOW_MS\<close> and \<open>RATE_LIMIT_MAX_REQUESTS\<close> are integers.
\<close>

record RateLimitStore =
  count :: int
  resetTime :: int

type_synonym store = "(string \<times> RateLimitStore) list"

text \<open>
  What the middleware does with the request: it either calls \<open>next()\<close> after setting the
  three \<open>X-RateLimit-*\<close> headers, or answers 429 \<open>RATE_LIMIT_EXCEEDED\<close> with
  \<open>Retry-After\<close> and the same three headers.
\<close>

datatype rl_outcome =
    Passed (limit: int) (remaining: int) (reset: int)
  | TooManyRequests (retryAfter: int) (limit: int) (remaining: int) (reset: int)

text \<open>JavaScript \<open>a || b\<close> on \<open>string | undefined\<close>: \<open>undefined\<close> and the empty string are falsy.\<close>

fun js_or :: "string option \<Rightarrow> string option \<Rightarrow> string option" where
  "js_or None b = b"
| "js_or (Some a) b = (if a = [] then b else Some a)"

text \<open>\<open>c.req.header('x-forwarded-for') || c.req.header('x-real-ip') || 'unknown'\<close>\<close>

definition clientIp :: "string option \<Rightarrow> string option \<Rightarrow> string" where
  "clientIp forwardedFor realIp =
     (case js_or (js_or forwardedFor realIp) (Some ''unknown'') of
        Some ip \<Rightarrow> ip | None \<Rightarrow> ''unknown'')"

text \<open>
  \<open>rateLimiter\<close> below takes the key \<open>ip\<close> that the middleware computes with \<open>clientIp\<close>
  from the two headers, and the value \<open>now\<close> of the clock.
\<close>

text \<open>\<open>Math.ceil(d / 1000)\<close> on an integer \<open>d\<close>.\<close>

definition ceilSeconds :: "int \<Rightarrow> int" where
  "ceilSeconds d = - ((- d) div 1000)"

definition newWindow :: "int \<Rightarrow> int \<Rightarrow> RateLimitStore" where
  "newWindow now windowMs = \<lparr>count = 1, resetTime = now + windowMs\<rparr>"

definition passWith :: "int \<Rightarrow> store \<Rightarrow> string \<Rightarrow> RateLimitStore \<Rightarrow> rl_outcome \<times> store" where
  "passWith maxRequests st ip entry =
     (Passed maxRequests (max 0 (maxRequests - count entry)) (resetTime entry),
      AList.update ip entry st)"

definition rateLimiter :: "int \<Rightarrow> int \<Rightarrow> store \<Rightarrow> string \<Rightarrow> int \<Rightarrow> rl_outcome \<times> store" where
  "rateLimiter windowMs maxRequests st ip now =
     (case map_of st ip of
        None \<Rightarrow> passWith maxRequests st ip (newWindow now windowMs)
      | Some entry \<Rightarrow>
          if now > resetTime entry then passWith maxRequests st ip (newWindow now windowMs)
          else if count entry \<ge> maxRequests then
            (TooManyRequests (ceilSeconds (resetTime entry - now)) maxRequests 0 (resetTime entry),
             st)
          else passWith maxRequests st ip (entry\<lparr>count := count entry + 1\<rparr>))"

text \<open>
  A sequence of requests, each with its client key and the clock value at which the
  middleware runs; the store is threaded through.
\<close>

fun serve :: "int \<Rightarrow> int \<Rightarrow> store \<Rightarrow> (string \<times> int) list \<Rightarrow> rl_outcome list \<times> store" where
  "serve windowMs maxRequests st [] = ([], st)"
| "serve windowMs maxRequests st ((ip, now) # reqs) =
     (let (out, st') = rateLimiter windowMs maxRequests st ip now;
          (outs, st'') = serve windowMs maxRequests st' reqs
      in (out # outs, st''))"

text \<open>
  \<open>cleanupRateLimitStore\<close>: the loop over \<open>store.entries()\<close> deletes every entry with
  \<open>now > entry.resetTime + 60000\<close>.
\<close>

definition sweepEntry :: "int \<Rightarrow> string \<times> RateLimitStore \<Rightarrow> store \<Rightarrow> store" where
  "sweepEntry now kv st =
     (if now > resetTime (snd kv) + 60000 then AList.delete (fst kv) st else st)"

definition cleanupRateLimitStore :: "store \<Rightarrow> int \<Rightarrow> store" where
  "cleanupRateLimitStore st now = fold (sweepEntry now) st st"

subsection \<open>Reading a request trace\<close>

text \<open>The clock values of the checks made on one key, and the outcomes of those checks.\<close>

definition checksOf :: "string \<Rightarrow> (string \<times> int) list \<Rightarrow> int list" where
  "checksOf ip reqs = map snd (filter (\<lambda>r. fst r = ip) reqs)"

definition outcomesOf ::
  "string \<Rightarrow> (string \<times> int) list \<Rightarrow> rl_outcome list \<Rightarrow> rl_outcome list" where
  "outcomesOf ip reqs outs = map snd (filter (\<lambda>p. fst (fst p) = ip) (zip reqs outs))"

fun allowed :: "rl_outcome \<Rightarrow> bool" where
  "allowed (Passed l r t) = True"
| "allowed (TooManyRequests a l r t) = False"

section \<open>JavaScript string helpers\<close>

text \<open>
  A JavaScript string is a \<open>string\<close>, the list of its characters. On ASCII text, which is
  what the keys, statuses, markers and URL parts handled here are made of, \<open>length\<close> and
  the functions below give what JavaScript gives.
\<close>

text \<open>\<open>s.includes(sub)\<close>: \<open>sub\<close> occurs in \<open>s\<close> as a contiguous substring.\<close>

fun str_includes :: "string \<Rightarrow> string \<Rightarrow> bool" where
  "str_includes [] sub = (sub = [])"
| "str_includes (c # cs) sub = (prefix sub (c # cs) \<or> str_includes cs sub)"

text \<open>
  \<open>s.replace(pat, '')\<close> with a string pattern: the first occurrence of \<open>pat\<close> is removed,
  later ones stay.
\<close>

fun removeFirst :: "string \<Rightarrow> string \<Rightarrow> string" where
  "removeFirst pat [] = []"
| "removeFirst pat (c # cs) =
     (if prefix pat (c # cs) then drop (length pat) (c # cs) else c # removeFirst pat cs)"

text \<open>Truthiness of a \<open>string | undefined\<close> value.\<close>

fun truthy :: "string option \<Rightarrow> bool" where
  "truthy None = False"
| "truthy (Some s) = (s \<noteq> [])"

section \<open>Auth gate (middleware/auth.ts)\<close>

text \<open>
  \<open>apiKeyAuth\<close> awaits \<open>next()\<close> and returns nothing, or returns to its caller the
  response made by \<open>c.json\<close>: \<open>Rejected\<close> holds the \<open>error\<close>, \<open>message\<close> and \<open>statusCode\<close>
  of its body, the status code being the HTTP status of the response as well.
\<close>

datatype auth_outcome =
    Next
  | Rejected string string nat

definition apiKeyAuth :: "string option \<Rightarrow> string option \<Rightarrow> string option \<Rightarrow> auth_outcome" where
  "apiKeyAuth API_KEY authHeader queryApiKey =
     (if \<not> truthy API_KEY then Next
      else
        let apiKey = js_or (map_option (removeFirst ''Bearer '') authHeader) queryApiKey
        in if \<not> truthy apiKey then
             Rejected ''UNAUTHORIZED''
               ''API key is required. Provide it in Authorization header or api_key query parameter.''
               401
           else if apiKey \<noteq> API_KEY then Rejected ''FORBIDDEN'' ''Invalid API key.'' 403
           else Next)"

text \<open>
  The middleware registered on \<open>/api/maps/*\<close> (index.ts): a path that ends with
  \<open>/health\<close> goes on with \<open>next()\<close>; for any other path the middleware awaits
  \<open>apiKeyAuth(c, next)\<close> and returns nothing, whatever \<open>apiKeyAuth\<close> returned. Its outcome
  is that \<open>next()\<close> ran (\<open>Continued\<close>), that it returned a response with the given
  \<open>error\<close>, \<open>message\<close> and status (\<open>Answered\<close>), or that it returned no response without
  running \<open>next()\<close> (\<open>Unanswered\<close>).
\<close>

definition endsWith :: "string \<Rightarrow> string \<Rightarrow> bool" where
  "endsWith s suf = prefix (rev suf) (rev s)"

datatype middleware_outcome =
    Continued
  | Answered string string nat
  | Unanswered

definition mapsAuthMiddleware ::
  "string option \<Rightarrow> string \<Rightarrow> string option \<Rightarrow> string option \<Rightarrow> middleware_outcome" where
  "mapsAuthMiddleware API_KEY requestPath authHeader queryApiKey =
     (if endsWith requestPath ''/health'' then Continued
      else
        (case apiKeyAuth API_KEY authHeader queryApiKey of
           Next \<Rightarrow> Continued
         | Rejected err msg status \<Rightarrow> Unanswered))"

section \<open>Errors\<close>

text \<open>
  A thrown JavaScript value. \<open>ZodError\<close> carries the issues of a failed \<open>parse\<close>;
  \<open>Error\<close>, \<open>TypeError\<close> and \<open>URIError\<close> carry their message.
\<close>

datatype issue_code = invalid_type | too_small | too_big

record ZodIssue =
  code :: issue_code
  path :: "string list"
  message :: string

datatype js_error =
    ZodError "ZodIssue list"
  | Error string
  | TypeError string
  | URIError string

section \<open>Maps gateway (services/googleMaps.ts)\<close>

subsection \<open>Provider payloads\<close>

text \<open>
  The payload types belong to the provider's client library; the records hold the
  fields the service reads. A JavaScript number is a value of the type parameter \<open>'n\<close>:
  the service copies numbers and never computes with them. A property that may be
  missing is an \<open>option\<close>. A coordinate is a plain number or a zero-argument accessor
  function, given by what a call of it gives (the number it returns, or the error it
  throws) and by its source text (what a template literal makes of a function).
\<close>

datatype 'n coord = Plain 'n | Accessor "js_error + 'n" string

record 'a LatLng =
  lat :: 'a
  lng :: 'a

record 'n PlaceGeometry =
  location :: "'n coord option LatLng option"

record PlacePhoto =
  photo_reference :: string

record OpeningHours =
  open_now :: "bool option"
  weekday_text :: "string list option"

record 'n PlaceReview =
  author_name :: string
  rating :: 'n
  "text" :: string
  time :: string

record 'n Place =
  place_id :: "string option"
  name :: "string option"
  formatted_address :: "string option"
  vicinity :: "string option"
  geometry :: "'n PlaceGeometry option"
  rating :: "'n option"
  user_ratings_total :: "'n option"
  types :: "string list option"
  business_status :: "string option"
  price_level :: "'n option"
  photos :: "PlacePhoto list option"
  formatted_phone_number :: "string option"
  website :: "string option"
  opening_hours :: "OpeningHours option"
  reviews :: "'n PlaceReview list option"

record 'n TextValue =
  "text" :: string
  "value" :: 'n

record 'n DirectionsStep =
  html_instructions :: string
  distance :: "'n TextValue"
  duration :: "'n TextValue"

record 'n RouteLeg =
  distance :: "'n TextValue"
  duration :: "'n TextValue"
  start_address :: string
  end_address :: string
  steps :: "'n DirectionsStep list"

record 'n DirectionsRoute =
  summary :: string
  legs :: "'n RouteLeg list"

text \<open>
  What the awaited client call gives: the promise is rejected with an error (the HTTP
  call failed), or it resolves to a response whose \<open>data\<close> has a \<open>status\<close> and the
  payload (\<open>results\<close>, \<open>result\<close> or \<open>routes\<close>).
\<close>

datatype 'a upstream = Rejects js_error | Response string 'a

subsection \<open>Normalised results (types/maps.ts)\<close>

record 'n PlaceResult =
  placeId :: "string option"
  name :: string
  address :: string
  location :: "'n option LatLng"
  rating :: "'n option"
  userRatingsTotal :: "'n option"
  types :: "string list option"
  businessStatus :: "string option"
  priceLevel :: "'n option"
  photoUrl :: "string option"
  googleMapsUrl :: string
  embedMapUrl :: string

record ResultOpeningHours =
  openNow :: "bool option"
  weekdayText :: "string list option"

record 'n Review =
  authorName :: string
  rating :: 'n
  "text" :: string
  time :: 'n

record 'n PlaceDetails = "'n PlaceResult" +
  phoneNumber :: "string option"
  website :: "string option"
  openingHours :: "ResultOpeningHours option"
  reviews :: "'n Review list option"

record Step =
  instruction :: string
  distance :: string
  duration :: string

record 'n DirectionsResult =
  summary :: string
  distance :: "'n TextValue"
  duration :: "'n TextValue"
  startAddress :: string
  endAddress :: string
  steps :: "Step list"
  googleMapsUrl :: string
  embedMapUrl :: string

record GetDirectionsRequest =
  origin :: string
  destination :: string
  mode :: string

subsection \<open>Built-ins\<close>

text \<open>
  \<open>encodeURIComponent\<close> on a string given by its bytes in (generalised) UTF-8. A lone
  surrogate, which is the byte \<open>ED\<close> followed by a byte from \<open>A0\<close> to \<open>BF\<close> and occurs in
  no well-formed text, makes the built-in throw \<open>URIError\<close>. Otherwise letters, digits
  and \<open>- _ . ! ~ * ' ( )\<close> stay and every other byte becomes \<open>%XX\<close>.
\<close>

fun loneSurrogate :: "string \<Rightarrow> bool" where
  "loneSurrogate (a # b # cs) =
     ((a = CHR 0xED \<and> 160 \<le> (of_char b :: nat) \<and> (of_char b :: nat) \<le> 191)
      \<or> loneSurrogate (b # cs))"
| "loneSurrogate cs = False"

definition uriUnreserved :: "char \<Rightarrow> bool" where
  "uriUnreserved c \<longleftrightarrow>
     c \<in> set ''ABCDEFGHIJKLMNOPQRSTUVWXYZabcdefghijklmnopqrstuvwxyz0123456789-_.!~*()''
     \<or> c = CHR 0x27"

definition hexDigit :: "nat \<Rightarrow> char" where
  "hexDigit n = ''0123456789ABCDEF'' ! (n mod 16)"

definition encodeByte :: "char \<Rightarrow> string" where
  "encodeByte c =
     (if uriUnreserved c then [c]
      else [CHR ''%'', hexDigit (of_char c div 16), hexDigit (of_char c mod 16)])"

definition encodeURIComponent :: "string \<Rightarrow> js_error + string" where
  "encodeURIComponent s =
     (if loneSurrogate s then Inl (URIError ''URI malformed'')
      else Inr (concat (map encodeByte s)))"

text \<open>
  \<open>xs.map(f)\<close> with a callback that may throw: the first throw ends the loop and is what
  \<open>map\<close> throws.
\<close>

fun mapThrowing :: "('a \<Rightarrow> js_error + 'b) \<Rightarrow> 'a list \<Rightarrow> js_error + 'b list" where
  "mapThrowing f [] = Inr []"
| "mapThrowing f (x # xs) =
     (case f x of
        Inl err \<Rightarrow> Inl err
      | Inr y \<Rightarrow> (case mapThrowing f xs of Inl err \<Rightarrow> Inl err | Inr ys \<Rightarrow> Inr (y # ys)))"

text \<open>\<open>v || 'literal'\<close> on a \<open>string | undefined\<close> with a non-empty literal.\<close>

fun orDefault :: "string option \<Rightarrow> string \<Rightarrow> string" where
  "orDefault None d = d"
| "orDefault (Some s) d = (if s = [] then d else s)"

text \<open>A template literal \<open>`${v}`\<close> on a \<open>string | undefined\<close> and on a coordinate.\<close>

fun tmplString :: "string option \<Rightarrow> string" where
  "tmplString None = ''undefined''"
| "tmplString (Some s) = s"

fun tmplCoord :: "('n \<Rightarrow> string) \<Rightarrow> 'n coord option \<Rightarrow> string" where
  "tmplCoord numToString None = ''undefined''"
| "tmplCoord numToString (Some (Plain n)) = numToString n"
| "tmplCoord numToString (Some (Accessor called src)) = src"

text \<open>\<open>typeof lat === 'function' ? lat() : lat\<close>\<close>

fun callIfFunction :: "'n coord option \<Rightarrow> js_error + 'n option" where
  "callIfFunction None = Inr None"
| "callIfFunction (Some (Plain n)) = Inr (Some n)"
| "callIfFunction (Some (Accessor (Inl err) src)) = Inl err"
| "callIfFunction (Some (Accessor (Inr n) src)) = Inr (Some n)"

text \<open>
  \<open>s.replace(/<[^>]*>/g, '')\<close>: scanning from the left, a \<open><\<close> with a \<open>>\<close> somewhere
  after it is removed together with everything up to the first such \<open>>\<close>; any other
  character is kept.
\<close>

function stripTags :: "string \<Rightarrow> string" where
  "stripTags [] = []"
| "stripTags (c # cs) =
     (if c = CHR ''<'' \<and> CHR ''>'' \<in> set cs
      then stripTags (tl (dropWhile (\<lambda>x. x \<noteq> CHR ''>'') cs))
      else c # stripTags cs)"
  by pat_completeness auto
termination
proof (relation "measure length")
  show "wf (measure length)" by simp
next
  fix c :: char and cs :: string
  have "length (dropWhile (\<lambda>x. x \<noteq> CHR ''>'') cs) \<le> length cs"
    by (rule length_dropWhile_le)
  then show "(tl (dropWhile (\<lambda>x. x \<noteq> CHR ''>'') cs), c # cs) \<in> measure length"
    by simp
next
  fix c :: char and cs :: string
  show "(cs, c # cs) \<in> measure length" by simp
qed

subsection \<open>URL builders\<close>

text \<open>
  Parameters that share their name with a record field are written shorter:
  \<open>pid\<close> for \<open>placeId\<close>, \<open>latitude\<close> and \<open>longitude\<close> for \<open>lat\<close> and \<open>lng\<close>,
  \<open>orig\<close>, \<open>dest\<close> and \<open>travelMode\<close> for \<open>origin\<close>, \<open>destination\<close> and \<open>mode\<close>.
\<close>

definition generatePlaceUrl :: "string option \<Rightarrow> string" where
  "generatePlaceUrl pid = ''https://www.google.com/maps/place/?q=place_id:'' @ tmplString pid"

text \<open>The \<open>query\<close> that \<open>generateEmbedMapUrl\<close> computes first.\<close>

definition embedQuery ::
  "('n \<Rightarrow> string) \<Rightarrow> 'n coord option \<Rightarrow> 'n coord option \<Rightarrow> string option \<Rightarrow> string" where
  "embedQuery numToString latitude longitude pid =
     (if truthy pid then ''place_id:'' @ tmplString pid
      else tmplCoord numToString latitude @ '','' @ tmplCoord numToString longitude)"

definition generateEmbedMapUrl ::
  "string \<Rightarrow> ('n \<Rightarrow> string) \<Rightarrow> 'n coord option \<Rightarrow> 'n coord option \<Rightarrow> string option
     \<Rightarrow> js_error + string" where
  "generateEmbedMapUrl apiKey numToString latitude longitude pid =
     (let query = embedQuery numToString latitude longitude pid
      in case encodeURIComponent query of
           Inl err \<Rightarrow> Inl err
         | Inr q \<Rightarrow> Inr (''https://www.google.com/maps/embed/v1/place?key='' @ apiKey
                          @ ''&q='' @ q))"

definition generateDirectionsUrl ::
  "string \<Rightarrow> string \<Rightarrow> string option \<Rightarrow> js_error + string" where
  "generateDirectionsUrl orig dest travelMode =
     (let modeParam = (if truthy travelMode then ''&travelmode='' @ tmplString travelMode else [])
      in case encodeURIComponent orig of
           Inl err \<Rightarrow> Inl err
         | Inr encodedOrigin \<Rightarrow>
             (case encodeURIComponent dest of
                Inl err \<Rightarrow> Inl err
              | Inr encodedDestination \<Rightarrow>
                  Inr (''https://www.google.com/maps/dir/?api=1&origin='' @ encodedOrigin
                        @ ''&destination='' @ encodedDestination @ modeParam)))"

definition generateEmbedDirectionsUrl ::
  "string \<Rightarrow> string \<Rightarrow> string \<Rightarrow> string option \<Rightarrow> js_error + string" where
  "generateEmbedDirectionsUrl apiKey orig dest travelMode =
     (let modeParam = (if truthy travelMode then ''&mode='' @ tmplString travelMode else [])
      in case encodeURIComponent orig of
           Inl err \<Rightarrow> Inl err
         | Inr encodedOrigin \<Rightarrow>
             (case encodeURIComponent dest of
                Inl err \<Rightarrow> Inl err
              | Inr encodedDestination \<Rightarrow>
                  Inr (''https://www.google.com/maps/embed/v1/directions?key='' @ apiKey
                        @ ''&origin='' @ encodedOrigin
                        @ ''&destination='' @ encodedDestination @ modeParam)))"

definition generatePhotoUrl :: "string \<Rightarrow> string \<Rightarrow> string" where
  "generatePhotoUrl apiKey photoReference =
     ''https://maps.googleapis.com/maps/api/place/photo?maxwidth=400&photo_reference=''
       @ photoReference @ ''&key='' @ apiKey"

subsection \<open>Operations\<close>

text \<open>
  Each operation is given what the awaited call to the provider's client resolves or
  rejects to. The \<open>catch\<close> block of an operation writes the error to the log and throws
  it again, so a thrown error is the operation's \<open>Inl\<close> result as it is.
\<close>

text \<open>The coordinates that \<open>formatPlaceResult\<close> reads with \<open>place.geometry?.location?.lat\<close>.\<close>

definition rawLat :: "'n Place \<Rightarrow> 'n coord option" where
  "rawLat place =
     (case geometry place of
        None \<Rightarrow> None
      | Some g \<Rightarrow> (case PlaceGeometry.location g of None \<Rightarrow> None | Some l \<Rightarrow> lat l))"

definition rawLng :: "'n Place \<Rightarrow> 'n coord option" where
  "rawLng place =
     (case geometry place of
        None \<Rightarrow> None
      | Some g \<Rightarrow> (case PlaceGeometry.location g of None \<Rightarrow> None | Some l \<Rightarrow> lng l))"

definition formatPlaceResult ::
  "string \<Rightarrow> ('n \<Rightarrow> string) \<Rightarrow> 'n Place \<Rightarrow> js_error + 'n PlaceResult" where
  "formatPlaceResult apiKey numToString place =
     (let pid = place_id place;
          latitude = rawLat place;
          longitude = rawLng place
      in case callIfFunction latitude of
           Inl err \<Rightarrow> Inl err
         | Inr latValue \<Rightarrow>
        (case callIfFunction longitude of
           Inl err \<Rightarrow> Inl err
         | Inr lngValue \<Rightarrow>
        (case generateEmbedMapUrl apiKey numToString latitude longitude pid of
           Inl err \<Rightarrow> Inl err
         | Inr embedUrl \<Rightarrow>
             Inr \<lparr>placeId = pid,
                  name = orDefault (Place.name place) ''Unknown'',
                  address = orDefault (js_or (formatted_address place) (vicinity place))
                              ''Address not available'',
                  location = \<lparr>lat = latValue, lng = lngValue\<rparr>,
                  rating = Place.rating place,
                  userRatingsTotal = user_ratings_total place,
                  types = Place.types place,
                  businessStatus = business_status place,
                  priceLevel = price_level place,
                  photoUrl = (case photos place of
                                Some (photo # rest) \<Rightarrow>
                                  Some (generatePhotoUrl apiKey (photo_reference photo))
                              | _ \<Rightarrow> None),
                  googleMapsUrl = generatePlaceUrl pid,
                  embedMapUrl = embedUrl\<rparr>)))"

definition apiError :: "string \<Rightarrow> js_error" where
  "apiError status = Error (''Google Maps API error: '' @ status)"

definition searchPlaces ::
  "string \<Rightarrow> ('n \<Rightarrow> string) \<Rightarrow> 'n Place list upstream \<Rightarrow> js_error + 'n PlaceResult list" where
  "searchPlaces apiKey numToString response =
     (case response of
        Rejects err \<Rightarrow> Inl err
      | Response status results \<Rightarrow>
          if status \<noteq> ''OK'' \<and> status \<noteq> ''ZERO_RESULTS'' then Inl (apiError status)
          else mapThrowing (formatPlaceResult apiKey numToString) results)"

definition getNearbyPlaces ::
  "string \<Rightarrow> ('n \<Rightarrow> string) \<Rightarrow> 'n Place list upstream \<Rightarrow> js_error + 'n PlaceResult list" where
  "getNearbyPlaces apiKey numToString response =
     (case response of
        Rejects err \<Rightarrow> Inl err
      | Response status results \<Rightarrow>
          if status \<noteq> ''OK'' \<and> status \<noteq> ''ZERO_RESULTS'' then Inl (apiError status)
          else mapThrowing (formatPlaceResult apiKey numToString) results)"

definition formatReview :: "(string \<Rightarrow> 'n) \<Rightarrow> 'n PlaceReview \<Rightarrow> 'n Review" where
  "formatReview toNumber review =
     \<lparr>authorName = author_name review,
      rating = PlaceReview.rating review,
      text = PlaceReview.text review,
      time = toNumber (PlaceReview.time review)\<rparr>"

definition getPlaceDetails ::
  "string \<Rightarrow> ('n \<Rightarrow> string) \<Rightarrow> (string \<Rightarrow> 'n) \<Rightarrow> 'n Place upstream \<Rightarrow> js_error + 'n PlaceDetails" where
  "getPlaceDetails apiKey numToString toNumber response =
     (case response of
        Rejects err \<Rightarrow> Inl err
      | Response status place \<Rightarrow>
          if status \<noteq> ''OK'' then Inl (apiError status)
          else
            (case formatPlaceResult apiKey numToString place of
               Inl err \<Rightarrow> Inl err
             | Inr basicInfo \<Rightarrow>
                 Inr (PlaceResult.extend basicInfo
                   \<lparr>phoneNumber = formatted_phone_number place,
                    website = Place.website place,
                    openingHours =
                      (case opening_hours place of
                         Some h \<Rightarrow> Some \<lparr>openNow = open_now h, weekdayText = weekday_text h\<rparr>
                       | None \<Rightarrow> None),
                    reviews = map_option (\<lambda>rs. map (formatReview toNumber) (take 5 rs))
                                (Place.reviews place)\<rparr>)))"

definition formatStep :: "'n DirectionsStep \<Rightarrow> Step" where
  "formatStep step =
     \<lparr>instruction = stripTags (html_instructions step),
      distance = TextValue.text (DirectionsStep.distance step),
      duration = TextValue.text (DirectionsStep.duration step)\<rparr>"

definition getDirections ::
  "string \<Rightarrow> GetDirectionsRequest \<Rightarrow> 'n DirectionsRoute list upstream
     \<Rightarrow> js_error + 'n DirectionsResult" where
  "getDirections apiKey params response =
     (case response of
        Rejects err \<Rightarrow> Inl err
      | Response status routes \<Rightarrow>
          if status \<noteq> ''OK'' then Inl (apiError status)
          else
            (case routes of
               [] \<Rightarrow> Inl (TypeError ''Cannot read properties of undefined (reading 'legs')'')
             | route # otherRoutes \<Rightarrow>
                 (case legs route of
                    [] \<Rightarrow> Inl (TypeError
                            ''Cannot read properties of undefined (reading 'distance')'')
                  | leg # otherLegs \<Rightarrow>
                      (case generateDirectionsUrl (origin params) (destination params)
                              (Some (mode params)) of
                         Inl err \<Rightarrow> Inl err
                       | Inr mapsUrl \<Rightarrow>
                           (case generateEmbedDirectionsUrl apiKey (origin params)
                                   (destination params) (Some (mode params)) of
                              Inl err \<Rightarrow> Inl err
                            | Inr embedUrl \<Rightarrow>
                                Inr \<lparr>summary = DirectionsRoute.summary route,
                                     distance = RouteLeg.distance leg,
                                     duration = RouteLeg.duration leg,
                                     startAddress = start_address leg,
                                     endAddress = end_address leg,
                                     steps = map formatStep (RouteLeg.steps leg),
                                     googleMapsUrl = mapsUrl,
                                     embedMapUrl = embedUrl\<rparr>)))))"

subsection \<open>Marked-up text\<close>

text \<open>
  An instruction written as a sequence of plain characters and \<open><...>\<close> tags, to say what
  stripping does on well-formed markup: a plain character is neither \<open><\<close> nor \<open>>\<close>, and
  the inside of a tag has no \<open>>\<close>.
\<close>

datatype piece = Chr char | Tag string

fun wellFormed :: "piece \<Rightarrow> bool" where
  "wellFormed (Chr c) = (c \<noteq> CHR ''<'' \<and> c \<noteq> CHR ''>'')"
| "wellFormed (Tag body) = (CHR ''>'' \<notin> set body)"

fun markupText :: "piece list \<Rightarrow> string" where
  "markupText [] = []"
| "markupText (Chr c # ps) = c # markupText ps"
| "markupText (Tag body # ps) = CHR ''<'' # body @ CHR ''>'' # markupText ps"

fun plainText :: "piece list \<Rightarrow> string" where
  "plainText [] = []"
| "plainText (Chr c # ps) = c # plainText ps"
| "plainText (Tag body # ps) = plainText ps"

subsection \<open>Sample payloads\<close>

text \<open>
  A directions payload with one route of one leg (1200 m, 900 s) and a single step with
  the given \<open>html_instructions\<close>; a place payload with no property set; a review.
\<close>

definition oneStepRoute :: "string \<Rightarrow> int DirectionsRoute" where
  "oneStepRoute html =
     \<lparr>DirectionsRoute.summary = ''Broadway'',
      legs = [\<lparr>RouteLeg.distance = \<lparr>TextValue.text = ''1.2 km'', value = 1200\<rparr>,
               duration = \<lparr>TextValue.text = ''15 mins'', value = 900\<rparr>,
               start_address = ''Times Square'',
               end_address = ''Central Park'',
               steps = [\<lparr>html_instructions = html,
                         distance = \<lparr>TextValue.text = ''1.2 km'', value = 1200\<rparr>,
                         duration = \<lparr>TextValue.text = ''15 mins'', value = 900\<rparr>\<rparr>]\<rparr>]\<rparr>"

definition walkingRequest :: GetDirectionsRequest where
  "walkingRequest =
     \<lparr>origin = ''Times Square'', destination = ''Central Park'', mode = ''walking''\<rparr>"

definition emptyPlace :: "int Place" where
  "emptyPlace =
     \<lparr>place_id = None, name = None, formatted_address = None, vicinity = None,
      geometry = None, rating = None, user_ratings_total = None, types = None,
      business_status = None, price_level = None, photos = None,
      formatted_phone_number = None, website = None, opening_hours = None,
      reviews = None\<rparr>"

definition sampleReview :: "int \<Rightarrow> int PlaceReview" where
  "sampleReview stars =
     \<lparr>author_name = ''Guest'', rating = stars, text = ''Fine.'', time = ''1700000000''\<rparr>"

text \<open>
  A place payload without \<open>place_id\<close> whose coordinates are accessor functions, as
  \<open>{geometry: {location: {lat: () => -6, lng: () => 107}}}\<close>.
\<close>

definition accessorPlace :: "int Place" where
  "accessorPlace =
     emptyPlace\<lparr>geometry :=
       Some \<lparr>PlaceGeometry.location =
               Some \<lparr>lat = Some (Accessor (Inr (- 6)) ''() => -6''),
                     lng = Some (Accessor (Inr 107) ''() => 107'')\<rparr>\<rparr>\<rparr>"

section \<open>Error normaliser (middleware/errorHandler.ts)\<close>

record ErrorDetail =
  path :: string
  message :: string

record ErrorResponse =
  error :: string
  message :: string
  statusCode :: nat
  details :: "ErrorDetail list option"

text \<open>\<open>parts.join('.')\<close>\<close>

fun joinDot :: "string list \<Rightarrow> string" where
  "joinDot [] = []"
| "joinDot [p] = p"
| "joinDot (p # q # ps) = p @ ''.'' @ joinDot (q # ps)"

definition classifyMessage :: "string \<Rightarrow> ErrorResponse \<times> nat" where
  "classifyMessage m =
     (if str_includes m ''Google Maps API error'' then
        (\<lparr>error = ''GOOGLE_MAPS_ERROR'', message = m, statusCode = 502, details = None\<rparr>, 502)
      else
        (\<lparr>error = ''INTERNAL_SERVER_ERROR'', message = ''An unexpected error occurred'',
          statusCode = 500, details = None\<rparr>, 500))"

text \<open>The envelope's \<open>error\<close> object and the HTTP status of the response.\<close>

fun errorHandler :: "js_error \<Rightarrow> ErrorResponse \<times> nat" where
  "errorHandler (ZodError issues) =
     (\<lparr>error = ''VALIDATION_ERROR'', message = ''Invalid request parameters'',
       statusCode = 400,
       details = Some (map (\<lambda>e. \<lparr>ErrorDetail.path = joinDot (ZodIssue.path e),
                                  message = ZodIssue.message e\<rparr>) issues)\<rparr>, 400)"
| "errorHandler (Error m) = classifyMessage m"
| "errorHandler (TypeError m) = classifyMessage m"
| "errorHandler (URIError m) = classifyMessage m"

text \<open>
  \<open>app.onError(errorHandler)\<close>: what a route answers when its handler throws, and the
  handler's result otherwise.
\<close>

definition respond :: "js_error + 'a \<Rightarrow> (ErrorResponse \<times> nat) + 'a" where
  "respond outcome =
     (case outcome of Inl err \<Rightarrow> Inl (errorHandler err) | Inr data \<Rightarrow> Inr data)"

section \<open>Request validation (types/maps.ts)\<close>

text \<open>
  The request body as \<open>c.req.json()\<close> returns it. An object is the list of its
  properties.
\<close>

datatype json =
    JNull
  | JBool bool
  | JNumber real
  | JString string
  | JArray "json list"
  | JObject "(string \<times> json) list"

text \<open>
  The schemas are built with the zod library. The builders the search-places schema
  uses are modelled after the library: a schema parses a value found at a path (\<open>None\<close>
  for a missing property) into a result or a list of issues. A string or number that
  has the right type goes through all its checks, and an object parses all its
  properties, so that the issues of all of them are collected. The library's own wording
  of an issue that has no message in the schema is the parameter \<open>defaultMessage\<close>.
\<close>

type_synonym 'a schema = "string list \<Rightarrow> json option \<Rightarrow> ZodIssue list + 'a"

type_synonym error_map = "issue_code \<Rightarrow> json option \<Rightarrow> string"

datatype string_check = MinLength nat string | MaxLength nat string

datatype number_check = Minimum real | Maximum real

fun stringCheck :: "string list \<Rightarrow> string \<Rightarrow> string_check \<Rightarrow> ZodIssue list" where
  "stringCheck p s (MinLength n msg) =
     (if length s < n then [\<lparr>code = too_small, path = p, message = msg\<rparr>] else [])"
| "stringCheck p s (MaxLength n msg) =
     (if length s > n then [\<lparr>code = too_big, path = p, message = msg\<rparr>] else [])"

fun numberCheck :: "error_map \<Rightarrow> string list \<Rightarrow> real \<Rightarrow> number_check \<Rightarrow> ZodIssue list" where
  "numberCheck defaultMessage p x (Minimum lo) =
     (if x < lo then
        [\<lparr>code = too_small, path = p, message = defaultMessage too_small (Some (JNumber x))\<rparr>]
      else [])"
| "numberCheck defaultMessage p x (Maximum hi) =
     (if x > hi then
        [\<lparr>code = too_big, path = p, message = defaultMessage too_big (Some (JNumber x))\<rparr>]
      else [])"

definition z_string :: "error_map \<Rightarrow> string_check list \<Rightarrow> string schema" where
  "z_string defaultMessage checks p v =
     (case v of
        Some (JString s) \<Rightarrow>
          (let issues = concat (map (stringCheck p s) checks)
           in if issues = [] then Inr s else Inl issues)
      | _ \<Rightarrow> Inl [\<lparr>code = invalid_type, path = p, message = defaultMessage invalid_type v\<rparr>])"

definition z_number :: "error_map \<Rightarrow> number_check list \<Rightarrow> real schema" where
  "z_number defaultMessage checks p v =
     (case v of
        Some (JNumber x) \<Rightarrow>
          (let issues = concat (map (numberCheck defaultMessage p x) checks)
           in if issues = [] then Inr x else Inl issues)
      | _ \<Rightarrow> Inl [\<lparr>code = invalid_type, path = p, message = defaultMessage invalid_type v\<rparr>])"

definition z_optional :: "'a schema \<Rightarrow> 'a option schema" where
  "z_optional inner p v =
     (case v of
        None \<Rightarrow> Inr None
      | Some x \<Rightarrow> (case inner p v of Inl issues \<Rightarrow> Inl issues | Inr y \<Rightarrow> Inr (Some y)))"

definition z_default :: "'a option schema \<Rightarrow> 'a \<Rightarrow> 'a schema" where
  "z_default inner d p v =
     (case v of
        None \<Rightarrow> Inr d
      | Some x \<Rightarrow>
          (case inner p v of
             Inl issues \<Rightarrow> Inl issues
           | Inr None \<Rightarrow> Inr d
           | Inr (Some y) \<Rightarrow> Inr y))"

fun issuesOf :: "ZodIssue list + 'a \<Rightarrow> ZodIssue list" where
  "issuesOf (Inl issues) = issues"
| "issuesOf (Inr x) = []"

record SearchPlacesRequest =
  query :: string
  location :: "string option"
  radius :: real
  type :: "string option"

text \<open>
  \<open>SearchPlacesSchema.parse(body)\<close>: the four property schemas in the order of the
  declaration, each at the path of its property.
\<close>

definition query_schema :: "error_map \<Rightarrow> string schema" where
  "query_schema defaultMessage =
     z_string defaultMessage [MinLength 1 ''Query is required'', MaxLength 500 ''Query too long'']"

definition radius_schema :: "error_map \<Rightarrow> real schema" where
  "radius_schema defaultMessage =
     z_default (z_optional (z_number defaultMessage [Minimum 1, Maximum 50000])) 5000"

definition SearchPlacesSchema :: "error_map \<Rightarrow> json \<Rightarrow> ZodIssue list + SearchPlacesRequest" where
  "SearchPlacesSchema defaultMessage body =
     (case body of
        JObject props \<Rightarrow>
          (let q = query_schema defaultMessage [''query''] (map_of props ''query'');
               l = z_optional (z_string defaultMessage []) [''location'']
                     (map_of props ''location'');
               r = radius_schema defaultMessage [''radius''] (map_of props ''radius'');
               t = z_optional (z_string defaultMessage []) [''type''] (map_of props ''type'')
           in (case (q, l, r, t) of
                 (Inr qv, Inr lv, Inr rv, Inr tv) \<Rightarrow>
                   Inr \<lparr>query = qv, location = lv, radius = rv, type = tv\<rparr>
               | _ \<Rightarrow> Inl (issuesOf q @ issuesOf l @ issuesOf r @ issuesOf t)))
      | _ \<Rightarrow>
          Inl [\<lparr>code = invalid_type, path = [],
                message = defaultMessage invalid_type (Some body)\<rparr>])"

text \<open>
  The route: \<open>SearchPlacesSchema.parse(body)\<close> throws a \<open>ZodError\<close> with the issues, and
  the error handler answers with the envelope.
\<close>

definition searchPlacesValidation ::
  "error_map \<Rightarrow> json \<Rightarrow> (ErrorResponse \<times> nat) + SearchPlacesRequest" where
  "searchPlacesValidation defaultMessage body =
     (case SearchPlacesSchema defaultMessage body of
        Inl issues \<Rightarrow> Inl (errorHandler (ZodError issues))
      | Inr request \<Rightarrow> Inr request)"

subsection \<open>The constraints in the words of the specification\<close>

text \<open>
  \<open>query\<close> is a non-empty string of at most 500 characters; \<open>radius\<close>, when present, is
  a number in \<open>[1, 50000]\<close>; \<open>location\<close> and \<open>type\<close>, when present, are strings.
\<close>

fun validQuery :: "json option \<Rightarrow> bool" where
  "validQuery (Some (JString s)) = (1 \<le> length s \<and> length s \<le> 500)"
| "validQuery _ = False"

fun validRadius :: "json option \<Rightarrow> bool" where
  "validRadius None = True"
| "validRadius (Some (JNumber x)) = (1 \<le> x \<and> x \<le> 50000)"
| "validRadius _ = False"

fun validOptionalString :: "json option \<Rightarrow> bool" where
  "validOptionalString None = True"
| "validOptionalString (Some (JString s)) = True"
| "validOptionalString _ = False"

text \<open>The \<open>radius\<close> of a request that passes: the given number, or the default.\<close>

fun radiusOrDefault :: "json option \<Rightarrow> real" where
  "radiusOrDefault (Some (JNumber x)) = x"
| "radiusOrDefault _ = 5000"

section \<open>Properties of the rate limiter\<close>

lemma ceilSeconds_ceiling: "ceilSeconds d = \<lceil>real_of_int d / 1000\<rceil>"
proof -
  have "\<lceil>real_of_int d / real_of_int 1000\<rceil> = - (- d div 1000)"
    by (rule ceiling_divide_eq_div)
  then show ?thesis by (simp add: ceilSeconds_def)
qed

lemma rateLimiter_other:
  "ip' \<noteq> ip \<Longrightarrow> map_of (snd (rateLimiter w m st ip' now)) ip = map_of st ip"
  by (simp add: rateLimiter_def passWith_def update_conv' split: option.splits)

lemma rateLimiter_fresh:
  "(case map_of st ip of None \<Rightarrow> True | Some e \<Rightarrow> resetTime e < now) \<Longrightarrow>
   rateLimiter w m st ip now =
     (Passed m (max 0 (m - 1)) (now + w), AList.update ip \<lparr>count = 1, resetTime = now + w\<rparr> st)"
  by (auto simp: rateLimiter_def passWith_def newWindow_def split: option.splits)

lemma rateLimiter_increment:
  "map_of st ip = Some e \<Longrightarrow> now \<le> resetTime e \<Longrightarrow> count e < m \<Longrightarrow>
   rateLimiter w m st ip now =
     (Passed m (max 0 (m - (count e + 1))) (resetTime e),
      AList.update ip (e\<lparr>count := count e + 1\<rparr>) st)"
  by (simp add: rateLimiter_def passWith_def)

lemma rateLimiter_deny:
  "map_of st ip = Some e \<Longrightarrow> now \<le> resetTime e \<Longrightarrow> m \<le> count e \<Longrightarrow>
   rateLimiter w m st ip now =
     (TooManyRequests (ceilSeconds (resetTime e - now)) m 0 (resetTime e), st)"
  by (simp add: rateLimiter_def)

lemma ceilSeconds_pos: "0 < d \<Longrightarrow> 1 \<le> ceilSeconds d"
  unfolding ceilSeconds_def by linarith

lemma rateLimiter_distinct:
  "distinct (map fst st) \<Longrightarrow> distinct (map fst (snd (rateLimiter w m st ip now)))"
  by (simp add: rateLimiter_def passWith_def distinct_update split: option.splits)

lemma serve_in_window:
  "map_of st ip = Some e \<Longrightarrow> \<forall>t \<in> set (checksOf ip reqs). t \<le> resetTime e \<Longrightarrow>
   count e + int (length (checksOf ip reqs)) \<le> m \<Longrightarrow>
   serve w m st reqs = (outs, st') \<Longrightarrow>
   map_of st' ip = Some (e\<lparr>count := count e + int (length (checksOf ip reqs))\<rparr>) \<and>
   (\<forall>out \<in> set (outcomesOf ip reqs outs). allowed out) \<and>
   length (outcomesOf ip reqs outs) = length (checksOf ip reqs)"
proof (induction reqs arbitrary: st e outs st')
  case Nil
  then show ?case by (simp add: checksOf_def outcomesOf_def)
next
  case (Cons r reqs)
  obtain ip' now where r: "r = (ip', now)" by (cases r)
  obtain out st1 where step: "rateLimiter w m st ip' now = (out, st1)"
    by (cases "rateLimiter w m st ip' now")
  obtain outs1 st2 where rest: "serve w m st1 reqs = (outs1, st2)"
    by (cases "serve w m st1 reqs")
  from Cons.prems(4) r step rest have outs: "outs = out # outs1" and st': "st' = st2"
    by simp_all
  show ?case
  proof (cases "ip' = ip")
    case False
    have st1: "map_of st1 ip = Some e"
      using rateLimiter_other [of ip' ip w m st now] False step Cons.prems(1) by simp
    have c: "checksOf ip (r # reqs) = checksOf ip reqs"
      using False r by (simp add: checksOf_def)
    have o: "outcomesOf ip (r # reqs) outs = outcomesOf ip reqs outs1"
      using False r outs by (simp add: outcomesOf_def)
    from Cons.IH [OF st1 _ _ rest] Cons.prems(2,3) c o st' show ?thesis by simp
  next
    case True
    have c: "checksOf ip (r # reqs) = now # checksOf ip reqs"
      using True r by (simp add: checksOf_def)
    have o: "outcomesOf ip (r # reqs) outs = out # outcomesOf ip reqs outs1"
      using True r outs by (simp add: outcomesOf_def)
    have now: "now \<le> resetTime e" using Cons.prems(2) c by simp
    have lt: "count e < m" using Cons.prems(3) c by simp
    have "rateLimiter w m st ip now =
      (Passed m (max 0 (m - (count e + 1))) (resetTime e),
       AList.update ip (e\<lparr>count := count e + 1\<rparr>) st)"
      using Cons.prems(1) now lt by (rule rateLimiter_increment)
    with step True
    have out: "out = Passed m (max 0 (m - (count e + 1))) (resetTime e)"
      and st1: "st1 = AList.update ip (e\<lparr>count := count e + 1\<rparr>) st" by simp_all
    let ?e = "e\<lparr>count := count e + 1\<rparr>"
    have st1ip: "map_of st1 ip = Some ?e" using st1 by (simp add: update_conv')
    have a: "\<forall>t\<in>set (checksOf ip reqs). t \<le> resetTime ?e" using Cons.prems(2) c by simp
    have b: "count ?e + int (length (checksOf ip reqs)) \<le> m" using Cons.prems(3) c by simp
    from Cons.IH [OF st1ip a b rest] c o st' out show ?thesis by simp
  qed
qed

lemma serve_window:
  "(case map_of st ip of None \<Rightarrow> True | Some e \<Rightarrow> resetTime e < t0) \<Longrightarrow>
   checksOf ip reqs = t0 # ts \<Longrightarrow> \<forall>t \<in> set ts. t \<le> t0 + w \<Longrightarrow>
   int (length (t0 # ts)) \<le> m \<Longrightarrow>
   serve w m st reqs = (outs, st') \<Longrightarrow>
   map_of st' ip = Some \<lparr>count = int (length (t0 # ts)), resetTime = t0 + w\<rparr> \<and>
   (\<forall>out \<in> set (outcomesOf ip reqs outs). allowed out) \<and>
   length (outcomesOf ip reqs outs) = length (t0 # ts)"
proof (induction reqs arbitrary: st outs st')
  case Nil
  then show ?case by (simp add: checksOf_def)
next
  case (Cons r reqs)
  obtain ip' now where r: "r = (ip', now)" by (cases r)
  obtain out st1 where step: "rateLimiter w m st ip' now = (out, st1)"
    by (cases "rateLimiter w m st ip' now")
  obtain outs1 st2 where rest: "serve w m st1 reqs = (outs1, st2)"
    by (cases "serve w m st1 reqs")
  from Cons.prems(5) r step rest have outs: "outs = out # outs1" and st': "st' = st2"
    by simp_all
  show ?case
  proof (cases "ip' = ip")
    case False
    have st1: "map_of st1 ip = map_of st ip"
      using rateLimiter_other [of ip' ip w m st now] False step by simp
    have c: "checksOf ip (r # reqs) = checksOf ip reqs"
      using False r by (simp add: checksOf_def)
    have o: "outcomesOf ip (r # reqs) outs = outcomesOf ip reqs outs1"
      using False r outs by (simp add: outcomesOf_def)
    from Cons.IH [OF _ _ Cons.prems(3,4) rest] Cons.prems(1,2) st1 c o st'
    show ?thesis by simp
  next
    case True
    have c: "checksOf ip (r # reqs) = now # checksOf ip reqs"
      using True r by (simp add: checksOf_def)
    with Cons.prems(2) have now: "now = t0" and ts: "checksOf ip reqs = ts" by simp_all
    have o: "outcomesOf ip (r # reqs) outs = out # outcomesOf ip reqs outs1"
      using True r outs by (simp add: outcomesOf_def)
    let ?e = "\<lparr>count = 1, resetTime = t0 + w\<rparr>"
    have "rateLimiter w m st ip t0 = (Passed m (max 0 (m - 1)) (t0 + w), AList.update ip ?e st)"
      using Cons.prems(1) by (rule rateLimiter_fresh)
    with step True now have out: "out = Passed m (max 0 (m - 1)) (t0 + w)"
      and st1: "st1 = AList.update ip ?e st" by simp_all
    have st1ip: "map_of st1 ip = Some ?e" using st1 by (simp add: update_conv')
    have a: "\<forall>t\<in>set (checksOf ip reqs). t \<le> resetTime ?e" using Cons.prems(3) ts by simp
    have b: "count ?e + int (length (checksOf ip reqs)) \<le> m" using Cons.prems(4) ts by simp
    from serve_in_window [OF st1ip a b rest] ts o st' out show ?thesis by simp
  qed
qed


lemma delete_as_filter: "AList.delete k al = filter (\<lambda>kv. fst kv \<noteq> k) al"
  by (induction al) auto

lemma fold_sweepEntry:
  "fold (sweepEntry now) xs st =
     filter (\<lambda>kv. fst kv \<notin> fst ` {x \<in> set xs. now > resetTime (snd x) + 60000}) st"
proof (induction xs arbitrary: st)
  case Nil
  then show ?case by simp
next
  case (Cons x xs)
  have step: "fold (sweepEntry now) (x # xs) st = fold (sweepEntry now) xs (sweepEntry now x st)"
    by simp
  show ?case
  proof (cases "now > resetTime (snd x) + 60000")
    case True
    then have sw: "sweepEntry now x st = filter (\<lambda>kv. fst kv \<noteq> fst x) st"
      by (simp add: sweepEntry_def delete_as_filter)
    have "fold (sweepEntry now) (x # xs) st =
        filter (\<lambda>kv. fst kv \<notin> fst ` {x \<in> set xs. now > resetTime (snd x) + 60000})
          (filter (\<lambda>kv. fst kv \<noteq> fst x) st)"
      unfolding step sw by (rule Cons.IH)
    also have "\<dots> =
        filter (\<lambda>kv. fst kv \<notin> fst ` {y \<in> set (x # xs). now > resetTime (snd y) + 60000}) st"
      using True by (auto intro!: filter_cong)
    finally show ?thesis .
  next
    case False
    then have sw: "sweepEntry now x st = st"
      by (simp add: sweepEntry_def)
    from False have "{y \<in> set (x # xs). now > resetTime (snd y) + 60000} =
        {y \<in> set xs. now > resetTime (snd y) + 60000}" by auto
    then show ?thesis unfolding step sw Cons.IH by simp
  qed
qed

text \<open>
  C1 (as amended). Take any request trace in which the checks on key \<open>ip\<close> are made at
  \<open>t0 # ts\<close>: the first one finds no entry or an expired one, there are exactly
  \<open>maxRequests\<close> of them, and all fall within the window opened at \<open>t0\<close>. Then all of
  them are allowed and leave the entry at \<open>count = maxRequests\<close>,
  \<open>windowResetAt = t0 + windowMs\<close>. Any further check at \<open>now \<le> windowResetAt\<close> is
  denied with \<open>retryAfterSeconds = ceil((windowResetAt - now) / 1000)\<close> and leaves the
  store as it was; the value is at least 1 when \<open>now < windowResetAt\<close> (it is 0 at
  \<open>now = windowResetAt\<close>). A check at \<open>now > windowResetAt\<close> is allowed and replaces the
  entry by \<open>count = 1\<close>, \<open>windowResetAt = now + windowMs\<close>.
\<close>

theorem rateLimiter_fixed_window:
  assumes fresh: "case map_of st ip of None \<Rightarrow> True | Some e \<Rightarrow> resetTime e < t0"
    and checks: "checksOf ip reqs = t0 # ts"
    and exactly: "int (length (t0 # ts)) = maxRequests"
    and within: "\<forall>t \<in> set ts. t \<le> t0 + windowMs"
    and run: "serve windowMs maxRequests st reqs = (outs, st')"
  shows "length (outcomesOf ip reqs outs) = nat maxRequests
       \<and> (\<forall>out \<in> set (outcomesOf ip reqs outs). allowed out)
       \<and> map_of st' ip = Some \<lparr>count = maxRequests, resetTime = t0 + windowMs\<rparr>
       \<and> (\<forall>now \<le> t0 + windowMs.
            rateLimiter windowMs maxRequests st' ip now =
              (TooManyRequests \<lceil>real_of_int (t0 + windowMs - now) / 1000\<rceil> maxRequests 0
                 (t0 + windowMs), st'))
       \<and> (\<forall>now < t0 + windowMs.
            1 \<le> retryAfter (fst (rateLimiter windowMs maxRequests st' ip now)))
       \<and> (\<forall>now > t0 + windowMs.
            rateLimiter windowMs maxRequests st' ip now =
              (Passed maxRequests (max 0 (maxRequests - 1)) (now + windowMs),
               AList.update ip \<lparr>count = 1, resetTime = now + windowMs\<rparr> st'))"
proof -
  let ?e = "\<lparr>count = maxRequests, resetTime = t0 + windowMs\<rparr>"
  have le: "int (length (t0 # ts)) \<le> maxRequests" using exactly by simp
  from serve_window [OF fresh checks within le run] exactly
  have len: "length (outcomesOf ip reqs outs) = nat maxRequests"
    and ok: "\<forall>out \<in> set (outcomesOf ip reqs outs). allowed out"
    and entry: "map_of st' ip = Some ?e"
    by auto
  have deny: "rateLimiter windowMs maxRequests st' ip now =
      (TooManyRequests \<lceil>real_of_int (t0 + windowMs - now) / 1000\<rceil> maxRequests 0
         (t0 + windowMs), st')" if "now \<le> t0 + windowMs" for now
    using rateLimiter_deny [of st' ip ?e now maxRequests windowMs] entry that
    by (simp add: ceilSeconds_ceiling)
  have retry: "1 \<le> retryAfter (fst (rateLimiter windowMs maxRequests st' ip now))"
    if "now < t0 + windowMs" for now
  proof -
    have "rateLimiter windowMs maxRequests st' ip now =
        (TooManyRequests (ceilSeconds (resetTime ?e - now)) maxRequests 0 (resetTime ?e), st')"
      using entry that by (intro rateLimiter_deny) simp_all
    moreover have "1 \<le> ceilSeconds (t0 + windowMs - now)"
      using that by (intro ceilSeconds_pos) simp
    ultimately show ?thesis by simp
  qed
  have again: "rateLimiter windowMs maxRequests st' ip now =
      (Passed maxRequests (max 0 (maxRequests - 1)) (now + windowMs),
       AList.update ip \<lparr>count = 1, resetTime = now + windowMs\<rparr> st')"
    if "now > t0 + windowMs" for now
    using entry that by (intro rateLimiter_fresh) simp
  from len ok entry deny retry again show ?thesis by blast
qed

theorem rateLimiter_fixed_window_witness:
  "serve 60000 2 [] [(''a'', 0), (''b'', 5), (''a'', 10)] =
     ([Passed 2 1 60000, Passed 2 1 60005, Passed 2 0 60000],
      [(''a'', \<lparr>count = 2, resetTime = 60000\<rparr>), (''b'', \<lparr>count = 1, resetTime = 60005\<rparr>)])
   \<and> rateLimiter 60000 2
        [(''a'', \<lparr>count = 2, resetTime = 60000\<rparr>), (''b'', \<lparr>count = 1, resetTime = 60005\<rparr>)]
        ''a'' 30500 =
       (TooManyRequests 30 2 0 60000,
        [(''a'', \<lparr>count = 2, resetTime = 60000\<rparr>), (''b'', \<lparr>count = 1, resetTime = 60005\<rparr>)])
   \<and> rateLimiter 60000 2
        [(''a'', \<lparr>count = 2, resetTime = 60000\<rparr>), (''b'', \<lparr>count = 1, resetTime = 60005\<rparr>)]
        ''a'' 60001 =
       (Passed 2 1 120001,
        [(''a'', \<lparr>count = 1, resetTime = 120001\<rparr>), (''b'', \<lparr>count = 1, resetTime = 60005\<rparr>)])"
proof -
  let ?st = "[(''a'', \<lparr>count = 2, resetTime = 60000\<rparr>), (''b'', \<lparr>count = 1, resetTime = 60005\<rparr>)]"
  let ?reqs = "[(''a'', 0::int), (''b'', 5), (''a'', 10)]"
  let ?outs = "[Passed 2 1 60000, Passed 2 1 60005, Passed 2 0 60000]"
  have fresh: "case map_of ([] :: store) ''a'' of None \<Rightarrow> True | Some e \<Rightarrow> resetTime e < 0"
    by simp
  have checks: "checksOf ''a'' ?reqs = 0 # [10]" by (simp add: checksOf_def)
  have exactly: "int (length (0 # [10::int])) = 2" by simp
  have within: "\<forall>t \<in> set [10::int]. t \<le> 0 + 60000" by simp
  have run: "serve 60000 2 [] ?reqs = (?outs, ?st)"
    by (simp add: rateLimiter_def passWith_def newWindow_def)
  from rateLimiter_fixed_window [OF fresh checks exactly within run]
  have "(\<forall>now \<le> 0 + 60000. rateLimiter 60000 2 ?st ''a'' now =
          (TooManyRequests \<lceil>real_of_int (0 + 60000 - now) / 1000\<rceil> 2 0 (0 + 60000), ?st))"
    and "(\<forall>now > 0 + 60000. rateLimiter 60000 2 ?st ''a'' now =
          (Passed 2 (max 0 (2 - 1)) (now + 60000),
           AList.update ''a'' \<lparr>count = 1, resetTime = now + 60000\<rparr> ?st))"
    by blast+
  then have "rateLimiter 60000 2 ?st ''a'' 30500 =
          (TooManyRequests \<lceil>real_of_int (0 + 60000 - 30500) / 1000\<rceil> 2 0 (0 + 60000), ?st)"
    and "rateLimiter 60000 2 ?st ''a'' 60001 =
          (Passed 2 (max 0 (2 - 1)) (60001 + 60000),
           AList.update ''a'' \<lparr>count = 1, resetTime = 60001 + 60000\<rparr> ?st)"
    by simp_all
  with run show ?thesis by simp
qed

theorem rateLimiter_retryAfter_counterexample:
  "fst (serve 60000 2 [] [(''a'', 0), (''a'', 10)]) = [Passed 2 1 60000, Passed 2 0 60000]
   \<and> fst (rateLimiter 60000 2 (snd (serve 60000 2 [] [(''a'', 0), (''a'', 10)])) ''a'' 60000) =
       TooManyRequests 0 2 0 60000
   \<and> fst (rateLimiter 60000 0 [] ''a'' 0) = Passed 0 0 60000"
  by (simp add: rateLimiter_def passWith_def newWindow_def ceilSeconds_def)

text \<open>
  C4 (as amended). The sweep removes exactly the entries whose \<open>windowResetAt\<close> lies more
  than 60000 ms before the sweep time, whatever \<open>windowMs\<close> is configured, and keeps
  every other entry unchanged and in place.
\<close>

theorem cleanupRateLimitStore_removes:
  assumes "distinct (map fst st)"
  shows "cleanupRateLimitStore st now = filter (\<lambda>kv. \<not> now - resetTime (snd kv) > 60000) st"
proof -
  have "fst kv \<in> fst ` {x \<in> set st. now > resetTime (snd x) + 60000}
        \<longleftrightarrow> now - resetTime (snd kv) > 60000" if kv: "kv \<in> set st" for kv
  proof
    assume "fst kv \<in> fst ` {x \<in> set st. now > resetTime (snd x) + 60000}"
    then obtain x where x: "x \<in> set st" "now > resetTime (snd x) + 60000" "fst x = fst kv"
      by auto
    from assms x(1,3) kv have "snd x = snd kv"
      by (metis eq_key_imp_eq_value prod.collapse)
    with x(2) show "now - resetTime (snd kv) > 60000" by simp
  next
    assume "now - resetTime (snd kv) > 60000"
    with kv have "kv \<in> {x \<in> set st. now > resetTime (snd x) + 60000}" by simp
    then show "fst kv \<in> fst ` {x \<in> set st. now > resetTime (snd x) + 60000}"
      by (rule imageI)
  qed
  then have "filter (\<lambda>kv. fst kv \<notin> fst ` {x \<in> set st. now > resetTime (snd x) + 60000}) st =
      filter (\<lambda>kv. \<not> now - resetTime (snd kv) > 60000) st"
    by (intro filter_cong) auto
  then show ?thesis
    unfolding cleanupRateLimitStore_def fold_sweepEntry .
qed

theorem cleanupRateLimitStore_removes_witness:
  "distinct (map fst [(''a'', \<lparr>count = 3, resetTime = 1000\<rparr>), (''b'', \<lparr>count = 1, resetTime = 50000\<rparr>)])
   \<and> cleanupRateLimitStore
        [(''a'', \<lparr>count = 3, resetTime = 1000\<rparr>), (''b'', \<lparr>count = 1, resetTime = 50000\<rparr>)] 61001 =
       [(''b'', \<lparr>count = 1, resetTime = 50000\<rparr>)]"
proof -
  have d: "distinct (map fst [(''a'', \<lparr>count = 3, resetTime = 1000\<rparr>),
      (''b'', \<lparr>count = 1, resetTime = 50000\<rparr>)])" by simp
  show ?thesis using d cleanupRateLimitStore_removes [OF d, of 61001] by simp
qed

theorem cleanupRateLimitStore_window_counterexample:
  "snd (rateLimiter 120000 100 [] ''a'' 0) = [(''a'', \<lparr>count = 1, resetTime = 120000\<rparr>)]
   \<and> cleanupRateLimitStore (snd (rateLimiter 120000 100 [] ''a'' 0)) 190000 = []
   \<and> \<not> (190000 - 120000 > (120000::int))
   \<and> snd (rateLimiter 30000 100 [] ''a'' 0) = [(''a'', \<lparr>count = 1, resetTime = 30000\<rparr>)]
   \<and> cleanupRateLimitStore (snd (rateLimiter 30000 100 [] ''a'' 0)) 70000 =
       [(''a'', \<lparr>count = 1, resetTime = 30000\<rparr>)]
   \<and> 70000 - 30000 > (30000::int)"
  by (simp add: rateLimiter_def passWith_def newWindow_def cleanupRateLimitStore_def
      sweepEntry_def)

section \<open>Properties of the auth gate\<close>

lemma str_includes_sublist: "str_includes s sub \<longleftrightarrow> sublist sub s"
  by (induction s) (auto simp: sublist_Cons_right)

lemma removeFirst_at_prefix: "prefix pat s \<Longrightarrow> removeFirst pat s = drop (length pat) s"
  by (cases s) simp_all

lemma removeFirst_prefix: "removeFirst pat (pat @ t) = t"
  by (simp add: removeFirst_at_prefix)

lemma removeFirst_absent: "\<not> str_includes s pat \<Longrightarrow> removeFirst pat s = s"
  by (induction s) auto

lemma removeFirst_first:
  "str_includes s pat \<Longrightarrow>
   \<exists>p t. s = p @ pat @ t \<and> removeFirst pat s = p @ t \<and>
         (\<forall>p' t'. s = p' @ pat @ t' \<longrightarrow> length p \<le> length p')"
proof (induction s)
  case Nil
  then show ?case by simp
next
  case (Cons c cs)
  show ?case
  proof (cases "prefix pat (c # cs)")
    case True
    then obtain t where "c # cs = pat @ t" by (auto simp: prefix_def)
    then have "c # cs = [] @ pat @ t \<and> removeFirst pat (c # cs) = [] @ t"
      using removeFirst_prefix [of pat t] by simp
    then show ?thesis by (metis length_0_conv list.size(3) zero_le)
  next
    case False
    with Cons.prems have "str_includes cs pat" by simp
    from Cons.IH [OF this] obtain p t where pt: "cs = p @ pat @ t" "removeFirst pat cs = p @ t"
      "\<forall>p' t'. cs = p' @ pat @ t' \<longrightarrow> length p \<le> length p'" by blast
    have "length (c # p) \<le> length p'" if "c # cs = p' @ pat @ t'" for p' t'
    proof (cases p')
      case Nil
      with that False show ?thesis by (simp add: prefix_def)
    next
      case (Cons a q)
      with that have "cs = q @ pat @ t'" by simp
      with pt(3) Cons show ?thesis by simp
    qed
    with pt(1,2) False have "c # cs = (c # p) @ pat @ t \<and> removeFirst pat (c # cs) = (c # p) @ t
      \<and> (\<forall>p' t'. c # cs = p' @ pat @ t' \<longrightarrow> length (c # p) \<le> length p')" by simp
    then show ?thesis by blast
  qed
qed

lemma apiKeyAuth_configured:
  "key \<noteq> [] \<Longrightarrow>
   apiKeyAuth (Some key) authHeader queryApiKey =
     (case js_or (map_option (removeFirst ''Bearer '') authHeader) queryApiKey of
        None \<Rightarrow> Rejected ''UNAUTHORIZED''
          ''API key is required. Provide it in Authorization header or api_key query parameter.'' 401
      | Some k \<Rightarrow>
          if k = [] then Rejected ''UNAUTHORIZED''
            ''API key is required. Provide it in Authorization header or api_key query parameter.'' 401
          else if k = key then Next
          else Rejected ''FORBIDDEN'' ''Invalid API key.'' 403)"
  by (auto simp: apiKeyAuth_def Let_def split: option.splits)

lemma providedKey_bearer:
  assumes "t \<noteq> []"
  shows "js_or (map_option (removeFirst ''Bearer '') (Some (''Bearer '' @ t))) q = Some t"
proof -
  have "map_option (removeFirst ''Bearer '') (Some (''Bearer '' @ t)) = Some t"
    unfolding option.map removeFirst_prefix ..
  with assms show ?thesis by simp
qed

text \<open>
  What \<open>apiKeyAuth\<close> returns to its caller. With no key configured it runs \<open>next()\<close>.
  With a key configured: without credentials it returns the 401 \<open>UNAUTHORIZED\<close>
  response; for a bearer token or an \<open>api_key\<close> parameter that differs from the
  configured key it returns the 403 \<open>FORBIDDEN\<close> response; for the configured key as
  bearer token or as \<open>api_key\<close> parameter it runs \<open>next()\<close>; and a bearer token in the
  header decides the outcome whatever the \<open>api_key\<close> parameter holds.
\<close>

theorem apiKeyAuth_gate:
  "(\<not> truthy API_KEY \<longrightarrow> apiKeyAuth API_KEY authHeader queryApiKey = Next)
   \<and> (key \<noteq> [] \<longrightarrow>
        (\<not> truthy queryApiKey \<longrightarrow>
           apiKeyAuth (Some key) None queryApiKey =
             Rejected ''UNAUTHORIZED''
               ''API key is required. Provide it in Authorization header or api_key query parameter.''
               401)
      \<and> (token \<noteq> [] \<and> token \<noteq> key \<longrightarrow>
           apiKeyAuth (Some key) (Some (''Bearer '' @ token)) queryApiKey =
             Rejected ''FORBIDDEN'' ''Invalid API key.'' 403
         \<and> apiKeyAuth (Some key) None (Some token) =
             Rejected ''FORBIDDEN'' ''Invalid API key.'' 403)
      \<and> apiKeyAuth (Some key) (Some (''Bearer '' @ key)) queryApiKey = Next
      \<and> apiKeyAuth (Some key) None (Some key) = Next)"
proof -
  have 1: "\<not> truthy API_KEY \<longrightarrow> apiKeyAuth API_KEY authHeader queryApiKey = Next"
    by (simp add: apiKeyAuth_def)
  have 2: "apiKeyAuth (Some key) None queryApiKey =
      Rejected ''UNAUTHORIZED''
        ''API key is required. Provide it in Authorization header or api_key query parameter.''
        401" if "key \<noteq> []" "\<not> truthy queryApiKey"
    using that by (cases queryApiKey) (simp_all add: apiKeyAuth_configured)
  have 3: "apiKeyAuth (Some key) (Some (''Bearer '' @ token)) queryApiKey =
      Rejected ''FORBIDDEN'' ''Invalid API key.'' 403"
    if "key \<noteq> []" "token \<noteq> []" "token \<noteq> key"
    using that apiKeyAuth_configured [of key "Some (''Bearer '' @ token)" queryApiKey]
      providedKey_bearer [of token queryApiKey] by simp
  have 4: "apiKeyAuth (Some key) None (Some token) =
      Rejected ''FORBIDDEN'' ''Invalid API key.'' 403"
    if "key \<noteq> []" "token \<noteq> []" "token \<noteq> key"
    using that by (simp add: apiKeyAuth_configured)
  have 5: "apiKeyAuth (Some key) (Some (''Bearer '' @ key)) queryApiKey = Next" if "key \<noteq> []"
    using that apiKeyAuth_configured [of key "Some (''Bearer '' @ key)" queryApiKey]
      providedKey_bearer [of key queryApiKey] by simp
  have 6: "apiKeyAuth (Some key) None (Some key) = Next" if "key \<noteq> []"
    using that by (simp add: apiKeyAuth_configured)
  from 1 2 3 4 5 6 show ?thesis by blast
qed

theorem apiKeyAuth_gate_witness:
  "apiKeyAuth None (Some ''Bearer anything'') None = Next
   \<and> apiKeyAuth (Some ''secret123'') None None =
       Rejected ''UNAUTHORIZED''
         ''API key is required. Provide it in Authorization header or api_key query parameter.''
         401
   \<and> apiKeyAuth (Some ''secret123'') (Some ''Bearer wrong'') None =
       Rejected ''FORBIDDEN'' ''Invalid API key.'' 403
   \<and> apiKeyAuth (Some ''secret123'') None (Some ''wrong'') =
       Rejected ''FORBIDDEN'' ''Invalid API key.'' 403
   \<and> apiKeyAuth (Some ''secret123'') (Some ''Bearer secret123'') None = Next
   \<and> apiKeyAuth (Some ''secret123'') None (Some ''secret123'') = Next"
proof -
  have a: "\<not> truthy None" by simp
  have k: "''secret123'' \<noteq> []" by simp
  have t: "''wrong'' \<noteq> [] \<and> ''wrong'' \<noteq> ''secret123''" by simp
  show ?thesis
    using a k t
      apiKeyAuth_gate [of None "Some ''Bearer anything''" None "''secret123''" "''wrong''"]
    by simp
qed

lemma mapsAuthMiddleware_never_answers:
  "mapsAuthMiddleware API_KEY requestPath authHeader queryApiKey \<noteq> Answered err msg status"
  by (simp add: mapsAuthMiddleware_def split: auth_outcome.splits)

lemma mapsAuthMiddleware_outcome:
  "mapsAuthMiddleware API_KEY requestPath authHeader queryApiKey =
     (if endsWith requestPath ''/health''
         \<or> apiKeyAuth API_KEY authHeader queryApiKey = Next
      then Continued else Unanswered)"
  by (simp add: mapsAuthMiddleware_def split: auth_outcome.splits)

text \<open>
  C8, at the requests that \<open>apiKeyAuth\<close> rejects. With the key \<open>secret123\<close> configured, for
  a request to \<open>/api/maps/search-places\<close> without credentials \<open>apiKeyAuth\<close> returns the 401
  \<open>UNAUTHORIZED\<close> response, and for one with the bearer token \<open>wrong\<close> the 403
  \<open>FORBIDDEN\<close> response; the middleware registered on \<open>/api/maps/*\<close> returns neither: it
  ends without a response and without running \<open>next()\<close>. With the configured key as
  bearer token, and on the health path, it goes on with \<open>next()\<close>.
\<close>

theorem mapsAuthMiddleware_drops_rejection:
  "apiKeyAuth (Some ''secret123'') None None =
     Rejected ''UNAUTHORIZED''
       ''API key is required. Provide it in Authorization header or api_key query parameter.''
       401
   \<and> mapsAuthMiddleware (Some ''secret123'') ''/api/maps/search-places'' None None = Unanswered
   \<and> apiKeyAuth (Some ''secret123'') (Some ''Bearer wrong'') None =
       Rejected ''FORBIDDEN'' ''Invalid API key.'' 403
   \<and> mapsAuthMiddleware (Some ''secret123'') ''/api/maps/search-places''
         (Some ''Bearer wrong'') None = Unanswered
   \<and> mapsAuthMiddleware (Some ''secret123'') ''/api/maps/search-places''
         (Some ''Bearer secret123'') None = Continued
   \<and> mapsAuthMiddleware (Some ''secret123'') ''/api/maps/health'' None None = Continued"
  by (simp add: mapsAuthMiddleware_def apiKeyAuth_def endsWith_def)

text \<open>
  C10 (as amended). Only the first occurrence of \<open>'Bearer '\<close> is cut out of the header, and
  what is left is the provided key. A non-empty header in which \<open>'Bearer '\<close> does not
  occur is compared as it is, so the configured key itself as header value passes when
  \<open>'Bearer '\<close> does not occur in it. A header that is exactly \<open>'Bearer '\<close> counts as no
  provided key: the request is treated as one without the header.
\<close>

theorem apiKeyAuth_bearer_strip:
  "key \<noteq> [] \<longrightarrow>
     (str_includes authHeader ''Bearer '' \<longrightarrow>
        (\<exists>p t. authHeader = p @ ''Bearer '' @ t
             \<and> (\<forall>p' t'. authHeader = p' @ ''Bearer '' @ t' \<longrightarrow> length p \<le> length p')
             \<and> (p @ t \<noteq> [] \<longrightarrow>
                  apiKeyAuth (Some key) (Some authHeader) queryApiKey =
                    (if p @ t = key then Next
                     else Rejected ''FORBIDDEN'' ''Invalid API key.'' 403))))
   \<and> (\<not> str_includes authHeader ''Bearer '' \<and> authHeader \<noteq> [] \<longrightarrow>
        apiKeyAuth (Some key) (Some authHeader) queryApiKey =
          (if authHeader = key then Next else Rejected ''FORBIDDEN'' ''Invalid API key.'' 403))
   \<and> (\<not> str_includes key ''Bearer '' \<longrightarrow>
        apiKeyAuth (Some key) (Some key) queryApiKey = Next)
   \<and> apiKeyAuth (Some key) (Some ''Bearer '') queryApiKey =
       apiKeyAuth (Some key) None queryApiKey"
proof
  assume key: "key \<noteq> []"
  have a: "\<exists>p t. authHeader = p @ ''Bearer '' @ t
      \<and> (\<forall>p' t'. authHeader = p' @ ''Bearer '' @ t' \<longrightarrow> length p \<le> length p')
      \<and> (p @ t \<noteq> [] \<longrightarrow>
           apiKeyAuth (Some key) (Some authHeader) queryApiKey =
             (if p @ t = key then Next else Rejected ''FORBIDDEN'' ''Invalid API key.'' 403))"
    if "str_includes authHeader ''Bearer ''"
  proof -
    from removeFirst_first [OF that] obtain p t where pt: "authHeader = p @ ''Bearer '' @ t"
      "removeFirst ''Bearer '' authHeader = p @ t"
      "\<forall>p' t'. authHeader = p' @ ''Bearer '' @ t' \<longrightarrow> length p \<le> length p'" by blast
    have "apiKeyAuth (Some key) (Some authHeader) queryApiKey =
        (if p @ t = key then Next else Rejected ''FORBIDDEN'' ''Invalid API key.'' 403)"
      if "p @ t \<noteq> []"
      using that key pt(2) by (auto simp: apiKeyAuth_configured)
    with pt(1,3) show ?thesis by blast
  qed
  have b: "apiKeyAuth (Some key) (Some authHeader) queryApiKey =
      (if authHeader = key then Next else Rejected ''FORBIDDEN'' ''Invalid API key.'' 403)"
    if "\<not> str_includes authHeader ''Bearer ''" "authHeader \<noteq> []"
    using that key by (simp add: apiKeyAuth_configured removeFirst_absent)
  have c: "apiKeyAuth (Some key) (Some key) queryApiKey = Next"
    if "\<not> str_includes key ''Bearer ''"
    using that key by (simp add: apiKeyAuth_configured removeFirst_absent)
  have d: "apiKeyAuth (Some key) (Some ''Bearer '') queryApiKey =
      apiKeyAuth (Some key) None queryApiKey"
    using key by (simp add: apiKeyAuth_configured)
  from a b c d show "(str_includes authHeader ''Bearer '' \<longrightarrow>
        (\<exists>p t. authHeader = p @ ''Bearer '' @ t
             \<and> (\<forall>p' t'. authHeader = p' @ ''Bearer '' @ t' \<longrightarrow> length p \<le> length p')
             \<and> (p @ t \<noteq> [] \<longrightarrow>
                  apiKeyAuth (Some key) (Some authHeader) queryApiKey =
                    (if p @ t = key then Next
                     else Rejected ''FORBIDDEN'' ''Invalid API key.'' 403))))
   \<and> (\<not> str_includes authHeader ''Bearer '' \<and> authHeader \<noteq> [] \<longrightarrow>
        apiKeyAuth (Some key) (Some authHeader) queryApiKey =
          (if authHeader = key then Next else Rejected ''FORBIDDEN'' ''Invalid API key.'' 403))
   \<and> (\<not> str_includes key ''Bearer '' \<longrightarrow>
        apiKeyAuth (Some key) (Some key) queryApiKey = Next)
   \<and> apiKeyAuth (Some key) (Some ''Bearer '') queryApiKey =
       apiKeyAuth (Some key) None queryApiKey" by blast
qed

theorem apiKeyAuth_bearer_strip_witness:
  "apiKeyAuth (Some ''secret123'') (Some ''Bearer Bearer secret123'') None =
     Rejected ''FORBIDDEN'' ''Invalid API key.'' 403
   \<and> apiKeyAuth (Some ''secret123'') (Some ''secret123'') None = Next
   \<and> apiKeyAuth (Some ''secret123'') (Some ''Bearer '') (Some ''secret123'') = Next"
proof -
  have k: "''secret123'' \<noteq> []" by simp
  have i: "str_includes ''Bearer Bearer secret123'' ''Bearer ''" by simp
  have n: "\<not> str_includes ''secret123'' ''Bearer '' \<and> ''secret123'' \<noteq> []" by simp
  have "apiKeyAuth (Some ''secret123'') (Some ''Bearer '') (Some ''secret123'') =
      apiKeyAuth (Some ''secret123'') None (Some ''secret123'')"
    and "apiKeyAuth (Some ''secret123'') (Some ''secret123'') None = Next"
    using k n apiKeyAuth_bearer_strip [of "''secret123''" "''secret123''" "Some ''secret123''"]
      apiKeyAuth_bearer_strip [of "''secret123''" "''secret123''" None]
    by simp_all
  moreover have "apiKeyAuth (Some ''secret123'') None (Some ''secret123'') = Next"
    by (simp add: apiKeyAuth_def)
  moreover have "apiKeyAuth (Some ''secret123'') (Some ''Bearer Bearer secret123'') None =
     Rejected ''FORBIDDEN'' ''Invalid API key.'' 403"
  proof -
    from k i apiKeyAuth_bearer_strip [of "''secret123''" "''Bearer Bearer secret123''" None]
    obtain p t where pt: "''Bearer Bearer secret123'' = p @ ''Bearer '' @ t"
      "\<forall>p' t'. ''Bearer Bearer secret123'' = p' @ ''Bearer '' @ t' \<longrightarrow> length p \<le> length p'"
      "p @ t \<noteq> [] \<longrightarrow>
         apiKeyAuth (Some ''secret123'') (Some ''Bearer Bearer secret123'') None =
           (if p @ t = ''secret123'' then Next
            else Rejected ''FORBIDDEN'' ''Invalid API key.'' 403)"
      by blast
    have "''Bearer Bearer secret123'' = [] @ ''Bearer '' @ ''Bearer secret123''" by simp
    with pt(2) have "length p \<le> length ([] :: string)" by blast
    then have p: "p = []" by simp
    with pt(1) have t: "t = ''Bearer secret123''" by simp
    from pt(3) p t show ?thesis by simp
  qed
  ultimately show ?thesis by simp
qed

theorem apiKeyAuth_bearer_strip_counterexample:
  "\<not> prefix ''Bearer '' ''my Bearer key''
   \<and> apiKeyAuth (Some ''my Bearer key'') (Some ''my Bearer key'') None =
       Rejected ''FORBIDDEN'' ''Invalid API key.'' 403
   \<and> apiKeyAuth (Some ''Bearer abc'') (Some ''Bearer abc'') None =
       Rejected ''FORBIDDEN'' ''Invalid API key.'' 403"
  by (simp add: apiKeyAuth_def)

section \<open>Properties of the maps gateway\<close>

lemma stripTags_subset: "set (stripTags s) \<subseteq> set s"
proof (induction s rule: stripTags.induct)
  case 1
  then show ?case by simp
next
  case (2 c cs)
  show ?case
  proof (cases "c = CHR ''<'' \<and> CHR ''>'' \<in> set cs")
    case True
    have "set (tl (dropWhile (\<lambda>x. x \<noteq> CHR ''>'') cs)) \<subseteq> set cs"
    proof -
      have "set (tl xs) \<subseteq> set xs" for xs :: string by (cases xs) auto
      moreover have "set (dropWhile (\<lambda>x. x \<noteq> CHR ''>'') cs) \<subseteq> set cs"
        by (auto dest: set_dropWhileD)
      ultimately show ?thesis by blast
    qed
    with 2(1) True show ?thesis by auto
  next
    case False
    with 2(2) show ?thesis by auto
  qed
qed

lemma stripTags_no_tag:
  "\<not> (\<exists>xs ys zs. stripTags s = xs @ CHR ''<'' # ys @ CHR ''>'' # zs)"
proof (induction s rule: stripTags.induct)
  case 1
  then show ?case by simp
next
  case (2 c cs)
  show ?case
  proof (cases "c = CHR ''<'' \<and> CHR ''>'' \<in> set cs")
    case True
    with 2(1) show ?thesis by simp
  next
    case False
    show ?thesis
    proof
      assume "\<exists>xs ys zs. stripTags (c # cs) = xs @ CHR ''<'' # ys @ CHR ''>'' # zs"
      then obtain xs ys zs where eq: "c # stripTags cs = xs @ CHR ''<'' # ys @ CHR ''>'' # zs"
        using False by auto
      show False
      proof (cases xs)
        case Nil
        with eq have c: "c = CHR ''<''" and "stripTags cs = ys @ CHR ''>'' # zs" by simp_all
        then have "CHR ''>'' \<in> set (stripTags cs)" by simp
        with stripTags_subset have "CHR ''>'' \<in> set cs" by blast
        with c False show False by simp
      next
        case (Cons x xs')
        with eq have "stripTags cs = xs' @ CHR ''<'' # ys @ CHR ''>'' # zs" by simp
        with 2(2) False show False by blast
      qed
    qed
  qed
qed

lemma stripTags_tag:
  assumes "CHR ''>'' \<notin> set body"
  shows "stripTags (CHR ''<'' # body @ CHR ''>'' # s) = stripTags s"
proof -
  have "dropWhile (\<lambda>x. x \<noteq> CHR ''>'') (body @ CHR ''>'' # s) = CHR ''>'' # s"
    using assms by (induction body) auto
  then show ?thesis by simp
qed

lemma stripTags_markup:
  "\<forall>p \<in> set ps. wellFormed p \<Longrightarrow> stripTags (markupText ps) = plainText ps"
proof (induction ps rule: markupText.induct)
  case 1
  then show ?case by simp
next
  case (2 c ps)
  then show ?case by simp
next
  case (3 body ps)
  from "3.prems" have b: "CHR ''>'' \<notin> set body" and rest: "\<forall>p\<in>set ps. wellFormed p"
    by simp_all
  have "stripTags (markupText (Tag body # ps)) =
      stripTags (CHR ''<'' # body @ CHR ''>'' # markupText ps)"
    by (simp only: markupText.simps)
  also have "\<dots> = stripTags (markupText ps)" using b by (rule stripTags_tag)
  also have "\<dots> = plainText ps" using rest by (rule "3.IH")
  finally show ?case by simp
qed

lemma plainText_clean:
  "\<forall>p \<in> set ps. wellFormed p \<Longrightarrow>
   CHR ''<'' \<notin> set (plainText ps) \<and> CHR ''>'' \<notin> set (plainText ps)"
  by (induction ps rule: plainText.induct) auto

lemma encodeURIComponent_succeeds:
  "(\<exists>encoded. encodeURIComponent s = Inr encoded) \<longleftrightarrow> \<not> loneSurrogate s"
  by (simp add: encodeURIComponent_def)

lemma generateDirectionsUrl_succeeds:
  "(\<exists>url. generateDirectionsUrl orig dest travelMode = Inr url) \<longleftrightarrow>
     \<not> loneSurrogate orig \<and> \<not> loneSurrogate dest"
  by (simp add: generateDirectionsUrl_def encodeURIComponent_def Let_def)

lemma generateEmbedDirectionsUrl_succeeds:
  "(\<exists>url. generateEmbedDirectionsUrl apiKey orig dest travelMode = Inr url) \<longleftrightarrow>
     \<not> loneSurrogate orig \<and> \<not> loneSurrogate dest"
  by (simp add: generateEmbedDirectionsUrl_def encodeURIComponent_def Let_def)

lemma formatPlaceResult_succeeds:
  "(\<exists>r. formatPlaceResult apiKey numToString place = Inr r) \<longleftrightarrow>
     (\<exists>latValue. callIfFunction (rawLat place) = Inr latValue)
     \<and> (\<exists>lngValue. callIfFunction (rawLng place) = Inr lngValue)
     \<and> \<not> loneSurrogate (embedQuery numToString (rawLat place) (rawLng place) (place_id place))"
  by (auto simp: formatPlaceResult_def generateEmbedMapUrl_def encodeURIComponent_def Let_def
      split: sum.splits)

lemma mapThrowing_succeeds:
  "(\<exists>ys. mapThrowing f xs = Inr ys) \<longleftrightarrow> (\<forall>x \<in> set xs. \<exists>y. f x = Inr y)"
  by (induction xs) (auto split: sum.splits)

lemma mapThrowing_result: "mapThrowing f xs = Inr ys \<Longrightarrow> map Inr ys = map f xs"
  by (induction xs arbitrary: ys) (auto split: sum.splits)

lemma getDirections_Inr:
  assumes "getDirections apiKey params (Response status routes) = Inr r"
  shows "status = ''OK'' \<and> routes \<noteq> [] \<and> legs (hd routes) \<noteq> []
       \<and> DirectionsResult.steps r = map formatStep (RouteLeg.steps (hd (legs (hd routes))))"
  using assms
  by (auto simp: getDirections_def split: if_splits list.splits sum.splits)

text \<open>
  C3 (as amended). In every \<open>getDirections\<close> result each step's instruction is the
  provider's \<open>html_instructions\<close> with every \<open><...>\<close> token removed: no \<open><\<close> of the
  instruction is followed by a \<open>>\<close>. When the provider's text is well-formed markup
  (plain characters other than \<open><\<close> and \<open>>\<close>, and tags), the instruction is the plain
  characters in their order and holds neither \<open><\<close> nor \<open>>\<close>.
\<close>

theorem getDirections_instructions:
  fixes routes :: "'n DirectionsRoute list"
  assumes "getDirections apiKey params (Response status routes) = Inr r"
  shows "routes \<noteq> [] \<and> legs (hd routes) \<noteq> []
       \<and> map instruction (DirectionsResult.steps r) =
           map (\<lambda>step. stripTags (html_instructions step))
             (RouteLeg.steps (hd (legs (hd routes))))
       \<and> (\<forall>st \<in> set (DirectionsResult.steps r).
            \<not> (\<exists>xs ys zs. instruction st = xs @ CHR ''<'' # ys @ CHR ''>'' # zs))
       \<and> (\<forall>i < length (DirectionsResult.steps r). \<forall>ps.
            html_instructions (RouteLeg.steps (hd (legs (hd routes))) ! i) = markupText ps
              \<and> (\<forall>p \<in> set ps. wellFormed p) \<longrightarrow>
            instruction (DirectionsResult.steps r ! i) = plainText ps
              \<and> CHR ''<'' \<notin> set (instruction (DirectionsResult.steps r ! i))
              \<and> CHR ''>'' \<notin> set (instruction (DirectionsResult.steps r ! i)))"
proof -
  let ?given = "RouteLeg.steps (hd (legs (hd routes)))"
  from getDirections_Inr [OF assms]
  have ne: "routes \<noteq> []" "legs (hd routes) \<noteq> []"
    and steps: "DirectionsResult.steps r = map formatStep ?given" by simp_all
  have instr: "map instruction (DirectionsResult.steps r) =
      map (\<lambda>step. stripTags (html_instructions step)) ?given"
    by (simp add: steps formatStep_def)
  have notag: "\<not> (\<exists>xs ys zs. instruction st = xs @ CHR ''<'' # ys @ CHR ''>'' # zs)"
    if "st \<in> set (DirectionsResult.steps r)" for st
  proof -
    from that steps obtain step :: "'n DirectionsStep" where "st = formatStep step" by auto
    then have "instruction st = stripTags (html_instructions step)"
      by (simp add: formatStep_def)
    then show ?thesis using stripTags_no_tag [of "html_instructions step"] by simp
  qed
  have clean: "instruction (DirectionsResult.steps r ! i) = plainText ps
      \<and> CHR ''<'' \<notin> set (instruction (DirectionsResult.steps r ! i))
      \<and> CHR ''>'' \<notin> set (instruction (DirectionsResult.steps r ! i))"
    if "i < length (DirectionsResult.steps r)" "html_instructions (?given ! i) = markupText ps"
      "\<forall>p \<in> set ps. wellFormed p" for i ps
  proof -
    from that(1) steps have "DirectionsResult.steps r ! i = formatStep (?given ! i)" by simp
    then have "instruction (DirectionsResult.steps r ! i) = stripTags (markupText ps)"
      using that(2) by (simp add: formatStep_def)
    with stripTags_markup [OF that(3)] plainText_clean [OF that(3)] show ?thesis by simp
  qed
  from ne instr notag clean show ?thesis by blast
qed

theorem getDirections_instructions_witness:
  "(case getDirections ''KEY'' walkingRequest
           (Response ''OK'' [oneStepRoute ''Go <b>left</b>'']) of
      Inr r \<Rightarrow> map instruction (DirectionsResult.steps r) | Inl e \<Rightarrow> []) = [''Go left'']"
proof -
  let ?routes = "[oneStepRoute ''Go <b>left</b>'']"
  let ?ps = "[Chr CHR ''G'', Chr CHR ''o'', Chr CHR '' '', Tag ''b'', Chr CHR ''l'',
    Chr CHR ''e'', Chr CHR ''f'', Chr CHR ''t'', Tag ''/b'']"
  have "\<exists>r. getDirections ''KEY'' walkingRequest (Response ''OK'' ?routes) = Inr r"
    by (simp add: getDirections_def oneStepRoute_def walkingRequest_def
        generateDirectionsUrl_def generateEmbedDirectionsUrl_def encodeURIComponent_def)
  then obtain r where run: "getDirections ''KEY'' walkingRequest (Response ''OK'' ?routes) = Inr r"
    by blast
  note facts = getDirections_instructions [OF run]
  from facts have len: "length (DirectionsResult.steps r) = 1"
    by (simp add: oneStepRoute_def) (metis length_map list.size(3,4) One_nat_def add_0)
  have html: "html_instructions (RouteLeg.steps (hd (legs (hd ?routes))) ! 0) = markupText ?ps"
    by (simp add: oneStepRoute_def)
  have wf: "\<forall>p \<in> set ?ps. wellFormed p" by simp
  from facts len html wf have "instruction (DirectionsResult.steps r ! 0) = plainText ?ps"
    by (metis zero_less_one)
  then have "instruction (DirectionsResult.steps r ! 0) = ''Go left''" by simp
  with len have "map instruction (DirectionsResult.steps r) = [''Go left'']"
    by (cases "DirectionsResult.steps r") auto
  with run show ?thesis by simp
qed

theorem getDirections_instructions_counterexample:
  "(case getDirections ''KEY'' walkingRequest
           (Response ''OK'' [oneStepRoute ''Keep <b>left</b> if speed > 30'']) of
      Inr r \<Rightarrow> map instruction (DirectionsResult.steps r) | Inl e \<Rightarrow> []) =
     [''Keep left if speed > 30'']
   \<and> CHR ''>'' \<in> set ''Keep left if speed > 30''
   \<and> stripTags ''a <<b>> c < d'' = ''a > c < d''"
  by (simp add: getDirections_def oneStepRoute_def formatStep_def walkingRequest_def
      generateDirectionsUrl_def generateEmbedDirectionsUrl_def encodeURIComponent_def)

lemma getPlaceDetails_Inr:
  assumes "getPlaceDetails apiKey numToString toNumber (Response status place) = Inr d"
  shows "status = ''OK'' \<and>
         PlaceDetails.reviews d =
           map_option (\<lambda>rs. map (formatReview toNumber) (take 5 rs)) (Place.reviews place)"
  using assms
  by (auto simp: getPlaceDetails_def PlaceResult.extend_def split: if_splits sum.splits)

text \<open>
  C9. In every \<open>getPlaceDetails\<close> result the reviews, when present, are at most 5: they
  are the first 5 (or all, when fewer) of the provider's list in the provider's order,
  each with the author name, rating and text of the provider's review and with its time
  converted to a number; the result has no reviews exactly when the payload has none.
\<close>

theorem getPlaceDetails_reviews:
  assumes "getPlaceDetails apiKey numToString toNumber (Response status place) = Inr d"
  shows "(case PlaceDetails.reviews d of None \<Rightarrow> Place.reviews place = None
          | Some out \<Rightarrow>
              length out \<le> 5
              \<and> (\<exists>given. Place.reviews place = Some given
                    \<and> length out = min 5 (length given)
                    \<and> map authorName out = map author_name (take 5 given)
                    \<and> map Review.rating out = map PlaceReview.rating (take 5 given)
                    \<and> map Review.text out = map PlaceReview.text (take 5 given)
                    \<and> map Review.time out =
                        map (\<lambda>review. toNumber (PlaceReview.time review)) (take 5 given)
                    \<and> (\<forall>i < length out.
                          authorName (out ! i) = author_name (given ! i)
                          \<and> Review.rating (out ! i) = PlaceReview.rating (given ! i)
                          \<and> Review.text (out ! i) = PlaceReview.text (given ! i)
                          \<and> Review.time (out ! i) = toNumber (PlaceReview.time (given ! i)))))"
proof (cases "Place.reviews place")
  case None
  with getPlaceDetails_Inr [OF assms] show ?thesis by simp
next
  case (Some given)
  let ?out = "map (formatReview toNumber) (take 5 given)"
  from Some getPlaceDetails_Inr [OF assms]
  have out: "PlaceDetails.reviews d = Some ?out" by simp
  have len: "length ?out = min 5 (length given)" by (simp add: min.commute)
  have names: "map authorName ?out = map author_name (take 5 given)"
    and ratings: "map Review.rating ?out = map PlaceReview.rating (take 5 given)"
    and texts: "map Review.text ?out = map PlaceReview.text (take 5 given)"
    and times: "map Review.time ?out =
      map (\<lambda>review. toNumber (PlaceReview.time review)) (take 5 given)"
    by (simp_all add: formatReview_def)
  have each: "authorName (?out ! i) = author_name (given ! i)
      \<and> Review.rating (?out ! i) = PlaceReview.rating (given ! i)
      \<and> Review.text (?out ! i) = PlaceReview.text (given ! i)
      \<and> Review.time (?out ! i) = toNumber (PlaceReview.time (given ! i))"
    if "i < length ?out" for i
    using that by (simp add: formatReview_def)
  from len have "length ?out \<le> 5" by simp
  with out Some len names ratings texts times each show ?thesis by simp
qed

theorem getPlaceDetails_reviews_witness:
  "(case getPlaceDetails ''KEY'' (\<lambda>n. ''0'') (\<lambda>s. 1700000000)
           (Response ''OK''
              (emptyPlace\<lparr>Place.reviews := Some (map sampleReview [1, 2, 3, 4, 5, 4, 3])\<rparr>)) of
      Inr d \<Rightarrow> map_option (map (\<lambda>review. (authorName review, Review.rating review,
                                           Review.text review, Review.time review)))
                 (PlaceDetails.reviews d)
    | Inl e \<Rightarrow> None) =
     Some [(''Guest'', 1, ''Fine.'', 1700000000), (''Guest'', 2, ''Fine.'', 1700000000),
           (''Guest'', 3, ''Fine.'', 1700000000), (''Guest'', 4, ''Fine.'', 1700000000),
           (''Guest'', 5, ''Fine.'', 1700000000)]"
proof -
  let ?given = "map sampleReview [1, 2, 3, 4, 5, 4, 3]"
  let ?place = "emptyPlace\<lparr>Place.reviews := Some ?given\<rparr>"
  have "\<exists>d. getPlaceDetails ''KEY'' (\<lambda>n. ''0'') (\<lambda>s. 1700000000) (Response ''OK'' ?place) = Inr d"
    by (simp add: getPlaceDetails_def formatPlaceResult_def generateEmbedMapUrl_def
        encodeURIComponent_def embedQuery_def rawLat_def rawLng_def emptyPlace_def)
  then obtain d where
    run: "getPlaceDetails ''KEY'' (\<lambda>n. ''0'') (\<lambda>s. 1700000000) (Response ''OK'' ?place) = Inr d"
    by blast
  have given: "Place.reviews ?place = Some ?given" by simp
  from getPlaceDetails_reviews [OF run] given
  obtain out where out: "PlaceDetails.reviews d = Some out"
    and names: "map authorName out = map author_name (take 5 ?given)"
    and ratings: "map Review.rating out = map PlaceReview.rating (take 5 ?given)"
    and texts: "map Review.text out = map PlaceReview.text (take 5 ?given)"
    and times: "map Review.time out =
      map (\<lambda>review. (1700000000 :: int)) (take 5 ?given)"
    by (cases "PlaceDetails.reviews d") auto
  have "map (\<lambda>review. (authorName review, Review.rating review, Review.text review,
        Review.time review)) out =
      zip (map authorName out) (zip (map Review.rating out)
        (zip (map Review.text out) (map Review.time out)))"
    by (induction out) auto
  also have "\<dots> =
      [(''Guest'', 1, ''Fine.'', 1700000000), (''Guest'', 2, ''Fine.'', 1700000000),
       (''Guest'', 3, ''Fine.'', 1700000000), (''Guest'', 4, ''Fine.'', 1700000000),
       (''Guest'', 5, ''Fine.'', 1700000000)]"
    unfolding names ratings texts times by (simp add: sampleReview_def)
  finally show ?thesis using run out by simp
qed

lemma apiError_message: "apiError status = Error (''Google Maps API error: '' @ status)"
  by (simp add: apiError_def)

lemma str_includes_prefix: "prefix sub s \<Longrightarrow> str_includes s sub"
  by (cases s) simp_all

lemma errorHandler_apiError:
  "errorHandler (apiError status) =
     (\<lparr>error = ''GOOGLE_MAPS_ERROR'', message = ''Google Maps API error: '' @ status,
       statusCode = 502, details = None\<rparr>, 502)"
proof -
  have "prefix ''Google Maps API error'' (''Google Maps API error'' @ '': '' @ status)"
    by (rule prefixI) simp
  then have "str_includes (''Google Maps API error'' @ '': '' @ status) ''Google Maps API error''"
    by (rule str_includes_prefix)
  then have "str_includes (''Google Maps API error: '' @ status) ''Google Maps API error''"
    by simp
  then show ?thesis by (simp only: apiError_def errorHandler.simps classifyMessage_def if_True)
qed

lemma getDirections_succeeds:
  "(\<exists>r. getDirections apiKey params (Response status routes) = Inr r) \<longleftrightarrow>
     status = ''OK'' \<and> routes \<noteq> [] \<and> legs (hd routes) \<noteq> []
     \<and> \<not> loneSurrogate (origin params) \<and> \<not> loneSurrogate (destination params)"
proof (cases "status = ''OK'' \<and> routes \<noteq> [] \<and> legs (hd routes) \<noteq> []")
  case False
  then show ?thesis by (auto simp: getDirections_def split: list.splits)
next
  case True
  then obtain route otherRoutes leg otherLegs
    where routes: "routes = route # otherRoutes" and legs: "legs route = leg # otherLegs"
    by (cases routes; cases "legs (hd routes)") auto
  note g = generateDirectionsUrl_succeeds [of "origin params" "destination params"
      "Some (mode params)"]
  note e = generateEmbedDirectionsUrl_succeeds [of apiKey "origin params" "destination params"
      "Some (mode params)"]
  show ?thesis
  proof (cases "\<not> loneSurrogate (origin params) \<and> \<not> loneSurrogate (destination params)")
    case True
    with g e obtain mapsUrl embedUrl
      where "generateDirectionsUrl (origin params) (destination params) (Some (mode params)) =
          Inr mapsUrl"
        and "generateEmbedDirectionsUrl apiKey (origin params) (destination params)
          (Some (mode params)) = Inr embedUrl" by blast
    with True \<open>status = ''OK'' \<and> routes \<noteq> [] \<and> legs (hd routes) \<noteq> []\<close> routes legs
    show ?thesis by (simp add: getDirections_def)
  next
    case False
    with g have "\<exists>err. generateDirectionsUrl (origin params) (destination params)
        (Some (mode params)) = Inl err"
      by (cases "generateDirectionsUrl (origin params) (destination params) (Some (mode params))")
        auto
    then obtain err where "generateDirectionsUrl (origin params) (destination params)
        (Some (mode params)) = Inl err" by blast
    with False routes legs \<open>status = ''OK'' \<and> routes \<noteq> [] \<and> legs (hd routes) \<noteq> []\<close>
    show ?thesis by (simp add: getDirections_def)
  qed
qed

lemma getPlaceDetails_succeeds:
  "(\<exists>d. getPlaceDetails apiKey numToString toNumber (Response status place) = Inr d) \<longleftrightarrow>
     status = ''OK'' \<and> (\<exists>r. formatPlaceResult apiKey numToString place = Inr r)"
  by (auto simp: getPlaceDetails_def split: sum.splits)

text \<open>
  C6 (as amended). \<open>searchPlaces\<close> and \<open>getNearbyPlaces\<close> succeed exactly when the status
  is \<open>OK\<close> or \<open>ZERO_RESULTS\<close> and every place of the payload's \<open>results\<close> is normalised
  without a throw; they return the normalised \<open>results\<close>, the empty list when the payload
  has none. \<open>getPlaceDetails\<close> succeeds exactly when the status is \<open>OK\<close> and the place is
  normalised without a throw. Normalising a place throws exactly when a call of one of
  its coordinate accessors throws or the query of its embed URL holds a lone surrogate,
  which \<open>encodeURIComponent\<close> refuses. \<open>getDirections\<close>
  succeeds exactly when the status is \<open>OK\<close>, there is a first route with a first leg, and
  neither \<open>origin\<close> nor \<open>destination\<close> holds a lone surrogate. On every status that an
  operation does not accept it raises the error whose message ends with the provider's
  status string.
\<close>

theorem upstream_status_policy:
  "((\<exists>found. searchPlaces apiKey numToString (Response status results) = Inr found)
      \<longleftrightarrow> (status = ''OK'' \<or> status = ''ZERO_RESULTS'')
          \<and> (\<forall>p \<in> set results. \<exists>r. formatPlaceResult apiKey numToString p = Inr r))
   \<and> ((\<exists>found. getNearbyPlaces apiKey numToString (Response status results) = Inr found)
      \<longleftrightarrow> (status = ''OK'' \<or> status = ''ZERO_RESULTS'')
          \<and> (\<forall>p \<in> set results. \<exists>r. formatPlaceResult apiKey numToString p = Inr r))
   \<and> (\<forall>found. searchPlaces apiKey numToString (Response status results) = Inr found \<longrightarrow>
         map Inr found = map (formatPlaceResult apiKey numToString) results)
   \<and> (\<forall>found. getNearbyPlaces apiKey numToString (Response status results) = Inr found \<longrightarrow>
         map Inr found = map (formatPlaceResult apiKey numToString) results)
   \<and> searchPlaces apiKey numToString (Response ''ZERO_RESULTS'' []) = Inr []
   \<and> getNearbyPlaces apiKey numToString (Response ''ZERO_RESULTS'' []) = Inr []
   \<and> (status \<noteq> ''OK'' \<and> status \<noteq> ''ZERO_RESULTS'' \<longrightarrow>
        searchPlaces apiKey numToString (Response status results) =
          Inl (Error (''Google Maps API error: '' @ status))
      \<and> getNearbyPlaces apiKey numToString (Response status results) =
          Inl (Error (''Google Maps API error: '' @ status)))
   \<and> ((\<exists>d. getPlaceDetails apiKey numToString toNumber (Response status place) = Inr d)
      \<longleftrightarrow> status = ''OK'' \<and> (\<exists>r. formatPlaceResult apiKey numToString place = Inr r))
   \<and> ((\<exists>r. formatPlaceResult apiKey numToString place = Inr r)
      \<longleftrightarrow> (\<exists>latValue. callIfFunction (rawLat place) = Inr latValue)
          \<and> (\<exists>lngValue. callIfFunction (rawLng place) = Inr lngValue)
          \<and> \<not> loneSurrogate
                (embedQuery numToString (rawLat place) (rawLng place) (place_id place)))
   \<and> ((\<exists>r. getDirections apiKey params (Response status routes) = Inr r)
      \<longleftrightarrow> status = ''OK'' \<and> routes \<noteq> [] \<and> legs (hd routes) \<noteq> []
          \<and> \<not> loneSurrogate (origin params) \<and> \<not> loneSurrogate (destination params))
   \<and> (status \<noteq> ''OK'' \<longrightarrow>
        getPlaceDetails apiKey numToString toNumber (Response status place) =
          Inl (Error (''Google Maps API error: '' @ status))
      \<and> getDirections apiKey params (Response status routes) =
          Inl (Error (''Google Maps API error: '' @ status)))"
proof -
  have s1: "(\<exists>found. searchPlaces apiKey numToString (Response status results) = Inr found)
      \<longleftrightarrow> (status = ''OK'' \<or> status = ''ZERO_RESULTS'')
          \<and> (\<forall>p \<in> set results. \<exists>r. formatPlaceResult apiKey numToString p = Inr r)"
    using mapThrowing_succeeds [of "formatPlaceResult apiKey numToString" results]
    by (auto simp: searchPlaces_def)
  have n1: "(\<exists>found. getNearbyPlaces apiKey numToString (Response status results) = Inr found)
      \<longleftrightarrow> (status = ''OK'' \<or> status = ''ZERO_RESULTS'')
          \<and> (\<forall>p \<in> set results. \<exists>r. formatPlaceResult apiKey numToString p = Inr r)"
    using mapThrowing_succeeds [of "formatPlaceResult apiKey numToString" results]
    by (auto simp: getNearbyPlaces_def)
  have s2: "map Inr found = map (formatPlaceResult apiKey numToString) results"
    if "searchPlaces apiKey numToString (Response status results) = Inr found" for found
    using that by (auto simp: searchPlaces_def split: if_splits intro: mapThrowing_result)
  have n2: "map Inr found = map (formatPlaceResult apiKey numToString) results"
    if "getNearbyPlaces apiKey numToString (Response status results) = Inr found" for found
    using that by (auto simp: getNearbyPlaces_def split: if_splits intro: mapThrowing_result)
  have z: "searchPlaces apiKey numToString (Response ''ZERO_RESULTS'' []) = Inr []"
    "getNearbyPlaces apiKey numToString (Response ''ZERO_RESULTS'' []) = Inr []"
    by (simp_all add: searchPlaces_def getNearbyPlaces_def)
  have bad: "status \<noteq> ''OK'' \<and> status \<noteq> ''ZERO_RESULTS'' \<longrightarrow>
        searchPlaces apiKey numToString (Response status results) =
          Inl (Error (''Google Maps API error: '' @ status))
      \<and> getNearbyPlaces apiKey numToString (Response status results) =
          Inl (Error (''Google Maps API error: '' @ status))"
    by (simp add: searchPlaces_def getNearbyPlaces_def apiError_message)
  have bad2: "status \<noteq> ''OK'' \<longrightarrow>
        getPlaceDetails apiKey numToString toNumber (Response status place) =
          Inl (Error (''Google Maps API error: '' @ status))
      \<and> getDirections apiKey params (Response status routes) =
          Inl (Error (''Google Maps API error: '' @ status))"
    by (simp add: getPlaceDetails_def getDirections_def apiError_message)
  note d = getPlaceDetails_succeeds [of apiKey numToString toNumber status place]
  note f = formatPlaceResult_succeeds [of apiKey numToString place]
  note g = getDirections_succeeds [of apiKey params status routes]
  show ?thesis
    apply (intro conjI allI impI)
    using s1 apply blast
    using n1 apply blast
    using s2 apply blast
    using n2 apply blast
    using z(1) apply blast
    using z(2) apply blast
    using bad apply blast
    using bad apply blast
    using d apply blast
    using f apply blast
    using g apply blast
    using bad2 apply blast
    using bad2 apply blast
    done
qed

theorem upstream_status_policy_witness:
  "map_sum id (map PlaceResult.name)
       (searchPlaces ''KEY'' (\<lambda>n. ''0'') (Response ''OK'' [emptyPlace])) = Inr [''Unknown'']
   \<and> getNearbyPlaces ''KEY'' (\<lambda>n. ''0'') (Response ''REQUEST_DENIED'' [emptyPlace]) =
       Inl (Error ''Google Maps API error: REQUEST_DENIED'')
   \<and> getPlaceDetails ''KEY'' (\<lambda>n. ''0'') (\<lambda>s. 0) (Response ''NOT_FOUND'' emptyPlace) =
       Inl (Error ''Google Maps API error: NOT_FOUND'')
   \<and> getDirections ''KEY'' walkingRequest (Response ''ZERO_RESULTS'' [oneStepRoute ''Go'']) =
       Inl (Error ''Google Maps API error: ZERO_RESULTS'')
   \<and> (\<exists>r. getDirections ''KEY'' walkingRequest (Response ''OK'' [oneStepRoute ''Go'']) = Inr r)"
proof -
  have ok: "''OK'' = ''OK'' \<or> ''OK'' = ''ZERO_RESULTS''" by simp
  have denied: "''REQUEST_DENIED'' \<noteq> ''OK'' \<and> ''REQUEST_DENIED'' \<noteq> ''ZERO_RESULTS''" by simp
  have nf: "''NOT_FOUND'' \<noteq> ''OK''" by simp
  have zr: "''ZERO_RESULTS'' \<noteq> ''OK''" by simp
  have route: "[oneStepRoute ''Go''] \<noteq> [] \<and> legs (hd [oneStepRoute ''Go'']) \<noteq> []"
    by (simp add: oneStepRoute_def)
  have clean: "\<not> loneSurrogate (origin walkingRequest)
      \<and> \<not> loneSurrogate (destination walkingRequest)"
    by (simp add: walkingRequest_def)
  have query: "(\<exists>latValue. callIfFunction (rawLat emptyPlace) = Inr latValue)
      \<and> (\<exists>lngValue. callIfFunction (rawLng emptyPlace) = Inr lngValue)
      \<and> \<not> loneSurrogate (embedQuery (\<lambda>n :: int. ''0'') (rawLat emptyPlace)
            (rawLng emptyPlace) (place_id emptyPlace))"
    by (simp add: embedQuery_def rawLat_def rawLng_def emptyPlace_def)
  note policy = upstream_status_policy [where apiKey = "''KEY''"
      and numToString = "\<lambda>n. ''0''" and toNumber = "\<lambda>s. 0" and place = emptyPlace
      and params = walkingRequest and results = "[emptyPlace]"
      and routes = "[oneStepRoute ''Go'']"]
  from query policy [where status = "''OK''"]
  obtain r where r: "formatPlaceResult ''KEY'' (\<lambda>n. ''0'') emptyPlace = Inr r" by blast
  then have all: "\<forall>p \<in> set [emptyPlace]. \<exists>r. formatPlaceResult ''KEY'' (\<lambda>n. ''0'') p = Inr r"
    by simp
  from ok all policy [where status = "''OK''"]
  obtain found where found: "searchPlaces ''KEY'' (\<lambda>n. ''0'') (Response ''OK'' [emptyPlace]) =
      Inr found" by blast
  with policy [where status = "''OK''"]
  have "map Inr found = map (formatPlaceResult ''KEY'' (\<lambda>n. ''0'')) [emptyPlace]" by blast
  with r have "found = [r]" by (cases found) auto
  moreover from r have "PlaceResult.name r = ''Unknown''"
    by (auto simp: formatPlaceResult_def emptyPlace_def Let_def split: sum.splits)
  ultimately have 1: "map_sum id (map PlaceResult.name)
       (searchPlaces ''KEY'' (\<lambda>n. ''0'') (Response ''OK'' [emptyPlace])) = Inr [''Unknown'']"
    using found by simp
  from denied policy [where status = "''REQUEST_DENIED''"]
  have 2: "getNearbyPlaces ''KEY'' (\<lambda>n. ''0'') (Response ''REQUEST_DENIED'' [emptyPlace]) =
      Inl (Error ''Google Maps API error: REQUEST_DENIED'')" by simp
  from nf policy [where status = "''NOT_FOUND''"]
  have 3: "getPlaceDetails ''KEY'' (\<lambda>n. ''0'') (\<lambda>s. 0) (Response ''NOT_FOUND'' emptyPlace) =
      Inl (Error ''Google Maps API error: NOT_FOUND'')" by simp
  from zr policy [where status = "''ZERO_RESULTS''"]
  have 4: "getDirections ''KEY'' walkingRequest (Response ''ZERO_RESULTS'' [oneStepRoute ''Go'']) =
      Inl (Error ''Google Maps API error: ZERO_RESULTS'')" by simp
  from route clean policy [where status = "''OK''"]
  have 5: "\<exists>r. getDirections ''KEY'' walkingRequest (Response ''OK'' [oneStepRoute ''Go'']) = Inr r"
    by blast
  from 1 2 3 4 5 show ?thesis by blast
qed

theorem upstream_status_policy_counterexample:
  "getDirections ''KEY'' walkingRequest (Response ''OK'' ([] :: int DirectionsRoute list)) =
     Inl (TypeError ''Cannot read properties of undefined (reading 'legs')'')
   \<and> map_sum id length
       (searchPlaces ''KEY'' (\<lambda>n. ''0'') (Response ''ZERO_RESULTS'' [emptyPlace])) = Inr 1
   \<and> getDirections ''KEY''
       \<lparr>origin = [CHR 0xED, CHR 0xA0, CHR 0x80], destination = ''Central Park'',
        mode = ''walking''\<rparr>
       (Response ''OK'' [oneStepRoute ''Go'']) = Inl (URIError ''URI malformed'')
   \<and> searchPlaces ''KEY'' (\<lambda>n. ''0'')
       (Response ''OK'' [emptyPlace\<lparr>place_id := Some [CHR 0xED, CHR 0xA0, CHR 0x80]\<rparr>]) =
       Inl (URIError ''URI malformed'')
   \<and> searchPlaces ''KEY'' (\<lambda>n. ''0'')
       (Response ''OK''
          [emptyPlace\<lparr>geometry :=
             Some \<lparr>PlaceGeometry.location =
                     Some \<lparr>lat = Some (Accessor (Inl (Error ''no position'')) ''() => fail()''),
                           lng = None\<rparr>\<rparr>\<rparr>]) =
       Inl (Error ''no position'')"
  by (simp add: getDirections_def searchPlaces_def oneStepRoute_def formatPlaceResult_def
      generateEmbedMapUrl_def generateDirectionsUrl_def encodeURIComponent_def embedQuery_def
      rawLat_def rawLng_def emptyPlace_def)

text \<open>
  C2 (as amended). When the provider answers with a status that the operation does not
  accept, the operation raises \<open>Google Maps API error: <status>\<close> and the error
  normaliser answers \<open>GOOGLE_MAPS_ERROR\<close>, HTTP 502, with that message. When the
  outbound call itself fails, the operation re-raises the error it caught, and the
  normaliser answers by the message alone: 502 with the message kept if it contains
  \<open>Google Maps API error\<close>, and otherwise \<open>INTERNAL_SERVER_ERROR\<close>, HTTP 500, with the
  fixed message \<open>An unexpected error occurred\<close>.
\<close>

theorem upstream_failure_classification:
  "(status \<noteq> ''OK'' \<and> status \<noteq> ''ZERO_RESULTS'' \<longrightarrow>
      respond (searchPlaces apiKey numToString (Response status results)) =
        Inl (\<lparr>error = ''GOOGLE_MAPS_ERROR'', message = ''Google Maps API error: '' @ status,
              statusCode = 502, details = None\<rparr>, 502)
    \<and> respond (getNearbyPlaces apiKey numToString (Response status results)) =
        Inl (\<lparr>error = ''GOOGLE_MAPS_ERROR'', message = ''Google Maps API error: '' @ status,
              statusCode = 502, details = None\<rparr>, 502))
   \<and> (status \<noteq> ''OK'' \<longrightarrow>
      respond (getPlaceDetails apiKey numToString toNumber (Response status place)) =
        Inl (\<lparr>error = ''GOOGLE_MAPS_ERROR'', message = ''Google Maps API error: '' @ status,
              statusCode = 502, details = None\<rparr>, 502)
    \<and> respond (getDirections apiKey params (Response status routes)) =
        Inl (\<lparr>error = ''GOOGLE_MAPS_ERROR'', message = ''Google Maps API error: '' @ status,
              statusCode = 502, details = None\<rparr>, 502))
   \<and> searchPlaces apiKey numToString (Rejects failure :: 'n Place list upstream) = Inl failure
   \<and> getNearbyPlaces apiKey numToString (Rejects failure :: 'n Place list upstream) = Inl failure
   \<and> getPlaceDetails apiKey numToString toNumber (Rejects failure :: 'n Place upstream) =
       Inl failure
   \<and> getDirections apiKey params (Rejects failure :: 'n DirectionsRoute list upstream) =
       Inl failure
   \<and> (str_includes m ''Google Maps API error'' \<longrightarrow>
        errorHandler (Error m) =
          (\<lparr>error = ''GOOGLE_MAPS_ERROR'', message = m, statusCode = 502, details = None\<rparr>, 502))
   \<and> (\<not> str_includes m ''Google Maps API error'' \<longrightarrow>
        errorHandler (Error m) =
          (\<lparr>error = ''INTERNAL_SERVER_ERROR'', message = ''An unexpected error occurred'',
            statusCode = 500, details = None\<rparr>, 500))"
proof -
  have a: "status \<noteq> ''OK'' \<and> status \<noteq> ''ZERO_RESULTS'' \<longrightarrow>
      respond (searchPlaces apiKey numToString (Response status results)) =
        Inl (errorHandler (apiError status))
    \<and> respond (getNearbyPlaces apiKey numToString (Response status results)) =
        Inl (errorHandler (apiError status))"
    by (simp add: respond_def searchPlaces_def getNearbyPlaces_def)
  have b: "status \<noteq> ''OK'' \<longrightarrow>
      respond (getPlaceDetails apiKey numToString toNumber (Response status place)) =
        Inl (errorHandler (apiError status))
    \<and> respond (getDirections apiKey params (Response status routes)) =
        Inl (errorHandler (apiError status))"
    by (simp add: respond_def getPlaceDetails_def getDirections_def)
  have c: "searchPlaces apiKey numToString (Rejects failure :: 'n Place list upstream) = Inl failure"
    "getNearbyPlaces apiKey numToString (Rejects failure :: 'n Place list upstream) = Inl failure"
    "getPlaceDetails apiKey numToString toNumber (Rejects failure :: 'n Place upstream) =
       Inl failure"
    "getDirections apiKey params (Rejects failure :: 'n DirectionsRoute list upstream) =
       Inl failure"
    by (simp_all add: searchPlaces_def getNearbyPlaces_def getPlaceDetails_def getDirections_def)
  have d: "str_includes m ''Google Maps API error'' \<longrightarrow>
        errorHandler (Error m) =
          (\<lparr>error = ''GOOGLE_MAPS_ERROR'', message = m, statusCode = 502, details = None\<rparr>, 502)"
    "\<not> str_includes m ''Google Maps API error'' \<longrightarrow>
        errorHandler (Error m) =
          (\<lparr>error = ''INTERNAL_SERVER_ERROR'', message = ''An unexpected error occurred'',
            statusCode = 500, details = None\<rparr>, 500)"
    by (simp_all add: classifyMessage_def)
  from a b c d show ?thesis
    unfolding errorHandler_apiError by blast
qed

theorem upstream_failure_classification_witness:
  "respond (searchPlaces ''KEY'' (\<lambda>n. ''0'') (Response ''OVER_QUERY_LIMIT'' [emptyPlace])) =
     Inl (\<lparr>error = ''GOOGLE_MAPS_ERROR'',
           message = ''Google Maps API error: OVER_QUERY_LIMIT'',
           statusCode = 502, details = None\<rparr>, 502)
   \<and> respond (getPlaceDetails ''KEY'' (\<lambda>n. ''0'') (\<lambda>s. 0) (Response ''NOT_FOUND'' emptyPlace)) =
     Inl (\<lparr>error = ''GOOGLE_MAPS_ERROR'', message = ''Google Maps API error: NOT_FOUND'',
           statusCode = 502, details = None\<rparr>, 502)
   \<and> errorHandler (Error ''Upstream said: Google Maps API error'') =
       (\<lparr>error = ''GOOGLE_MAPS_ERROR'', message = ''Upstream said: Google Maps API error'',
         statusCode = 502, details = None\<rparr>, 502)
   \<and> errorHandler (Error ''timeout of 10000ms exceeded'') =
       (\<lparr>error = ''INTERNAL_SERVER_ERROR'', message = ''An unexpected error occurred'',
         statusCode = 500, details = None\<rparr>, 500)"
proof -
  have s: "''OVER_QUERY_LIMIT'' \<noteq> ''OK'' \<and> ''OVER_QUERY_LIMIT'' \<noteq> ''ZERO_RESULTS''" by simp
  have nf: "''NOT_FOUND'' \<noteq> ''OK''" by simp
  have i: "str_includes ''Upstream said: Google Maps API error'' ''Google Maps API error''"
    by simp
  have n: "\<not> str_includes ''timeout of 10000ms exceeded'' ''Google Maps API error''" by simp
  note classification = upstream_failure_classification [where apiKey = "''KEY''"
      and numToString = "\<lambda>n. ''0''" and toNumber = "\<lambda>s. 0" and place = emptyPlace
      and params = walkingRequest and results = "[emptyPlace]"
      and routes = "[oneStepRoute ''Go'']" and failure = "Error ''socket hang up''"]
  from s classification [where status = "''OVER_QUERY_LIMIT''"
      and m = "''timeout of 10000ms exceeded''"]
  have 1: "respond (searchPlaces ''KEY'' (\<lambda>n. ''0'') (Response ''OVER_QUERY_LIMIT'' [emptyPlace])) =
     Inl (\<lparr>error = ''GOOGLE_MAPS_ERROR'',
           message = ''Google Maps API error: OVER_QUERY_LIMIT'',
           statusCode = 502, details = None\<rparr>, 502)" by simp
  from nf classification [where status = "''NOT_FOUND''"
      and m = "''timeout of 10000ms exceeded''"]
  have 2: "respond (getPlaceDetails ''KEY'' (\<lambda>n. ''0'') (\<lambda>s. 0) (Response ''NOT_FOUND'' emptyPlace)) =
     Inl (\<lparr>error = ''GOOGLE_MAPS_ERROR'', message = ''Google Maps API error: NOT_FOUND'',
           statusCode = 502, details = None\<rparr>, 502)" by simp
  from i classification [where status = "''NOT_FOUND''"
      and m = "''Upstream said: Google Maps API error''"]
  have 3: "errorHandler (Error ''Upstream said: Google Maps API error'') =
       (\<lparr>error = ''GOOGLE_MAPS_ERROR'', message = ''Upstream said: Google Maps API error'',
         statusCode = 502, details = None\<rparr>, 502)" by blast
  from n classification [where status = "''NOT_FOUND''"
      and m = "''timeout of 10000ms exceeded''"]
  have 4: "errorHandler (Error ''timeout of 10000ms exceeded'') =
       (\<lparr>error = ''INTERNAL_SERVER_ERROR'', message = ''An unexpected error occurred'',
         statusCode = 500, details = None\<rparr>, 500)" by blast
  from 1 2 3 4 show ?thesis by blast
qed

theorem upstream_failure_classification_counterexample:
  "respond (searchPlaces ''KEY'' (\<lambda>n. ''0'')
       (Rejects (Error ''connect ECONNREFUSED 142.250.4.95:443'') :: int Place list upstream)) =
     Inl (\<lparr>error = ''INTERNAL_SERVER_ERROR'', message = ''An unexpected error occurred'',
           statusCode = 500, details = None\<rparr>, 500)"
  by (simp add: respond_def searchPlaces_def classifyMessage_def)

lemma formatPlaceResult_identified:
  assumes "place_id place = Some pid" "pid \<noteq> []"
    and "formatPlaceResult apiKey numToString place = Inr r"
  shows "PlaceResult.googleMapsUrl r = ''https://www.google.com/maps/place/?q=place_id:'' @ pid"
    and "encodeURIComponent (''place_id:'' @ pid) = Inr q \<Longrightarrow>
         PlaceResult.embedMapUrl r =
           ''https://www.google.com/maps/embed/v1/place?key='' @ apiKey @ ''&q='' @ q"
  using assms
  by (auto simp: formatPlaceResult_def Let_def generatePlaceUrl_def generateEmbedMapUrl_def
      embedQuery_def split: sum.splits)

lemma embedQuery_plain:
  assumes "\<not> truthy pid"
  shows "embedQuery numToString (Some (Plain a)) (Some (Plain b)) pid =
           numToString a @ '','' @ numToString b"
  using assms by (simp add: embedQuery_def)

text \<open>
  C5, at a place payload without \<open>place_id\<close> whose coordinates are accessor functions:
  the \<open>location\<close> of the result holds the numbers the accessors return, while the query
  of \<open>embedMapUrl\<close> is the URL-encoded source text of the two functions, not
  \<open><lat>,<lng>\<close>.
\<close>

theorem formatPlaceResult_accessor_embed:
  "\<exists>r. formatPlaceResult ''KEY'' numToString accessorPlace = Inr r
     \<and> PlaceResult.location r = \<lparr>lat = Some (- 6), lng = Some 107\<rparr>
     \<and> PlaceResult.googleMapsUrl r = ''https://www.google.com/maps/place/?q=place_id:undefined''
     \<and> PlaceResult.embedMapUrl r =
         ''https://www.google.com/maps/embed/v1/place?key=KEY&q=()%20%3D%3E%20-6%2C()%20%3D%3E%20107''"
  by (simp add: formatPlaceResult_def accessorPlace_def emptyPlace_def generateEmbedMapUrl_def
      embedQuery_def rawLat_def rawLng_def generatePlaceUrl_def encodeURIComponent_def
      encodeByte_def uriUnreserved_def hexDigit_def)

section \<open>Properties of the request validation\<close>

lemma query_schema_cases:
  "(validQuery v \<and> (\<exists>s. v = Some (JString s) \<and> query_schema dm p v = Inr s))
   \<or> (\<not> validQuery v \<and> (\<exists>issues. query_schema dm p v = Inl issues \<and> issues \<noteq> []
         \<and> (\<forall>i \<in> set issues. ZodIssue.path i = p)))"
proof (cases v)
  case None
  then show ?thesis by (simp add: query_schema_def z_string_def)
next
  case (Some j)
  then show ?thesis
    by (cases j) (auto simp: query_schema_def z_string_def Let_def Suc_le_eq)
qed

lemma optional_string_cases:
  "(validOptionalString v
      \<and> (\<exists>r. z_optional (z_string dm []) p v = Inr r
            \<and> (case r of None \<Rightarrow> v = None | Some s \<Rightarrow> v = Some (JString s))))
   \<or> (\<not> validOptionalString v
        \<and> (\<exists>issues. z_optional (z_string dm []) p v = Inl issues \<and> issues \<noteq> []
              \<and> (\<forall>i \<in> set issues. ZodIssue.path i = p)))"
proof (cases v)
  case None
  then show ?thesis by (simp add: z_optional_def)
next
  case (Some j)
  then show ?thesis
    by (cases j) (auto simp: z_optional_def z_string_def Let_def)
qed

lemma radius_schema_cases:
  "(validRadius v \<and> radius_schema dm p v = Inr (radiusOrDefault v))
   \<or> (\<not> validRadius v
        \<and> (\<exists>issues. radius_schema dm p v = Inl issues \<and> issues \<noteq> []
              \<and> (\<forall>i \<in> set issues. ZodIssue.path i = p)))"
proof (cases v)
  case None
  then show ?thesis by (simp add: radius_schema_def z_default_def)
next
  case (Some j)
  then show ?thesis
    by (cases j)
      (auto simp: radius_schema_def z_default_def z_optional_def z_number_def Let_def)
qed

lemma SearchPlacesSchema_object:
  "SearchPlacesSchema dm (JObject props) =
     (if validQuery (map_of props ''query'') \<and> validOptionalString (map_of props ''location'')
         \<and> validRadius (map_of props ''radius'') \<and> validOptionalString (map_of props ''type'')
      then Inr \<lparr>query = (case map_of props ''query'' of Some (JString s) \<Rightarrow> s | _ \<Rightarrow> []),
                location = (case map_of props ''location'' of Some (JString s) \<Rightarrow> Some s
                            | _ \<Rightarrow> None),
                radius = radiusOrDefault (map_of props ''radius''),
                type = (case map_of props ''type'' of Some (JString s) \<Rightarrow> Some s | _ \<Rightarrow> None)\<rparr>
      else Inl (issuesOf (query_schema dm [''query''] (map_of props ''query''))
              @ issuesOf (z_optional (z_string dm []) [''location''] (map_of props ''location''))
              @ issuesOf (radius_schema dm [''radius''] (map_of props ''radius''))
              @ issuesOf (z_optional (z_string dm []) [''type''] (map_of props ''type''))))"
proof -
  let ?q = "query_schema dm [''query''] (map_of props ''query'')"
  let ?l = "z_optional (z_string dm []) [''location''] (map_of props ''location'')"
  let ?r = "radius_schema dm [''radius''] (map_of props ''radius'')"
  let ?t = "z_optional (z_string dm []) [''type''] (map_of props ''type'')"
  have unfold: "SearchPlacesSchema dm (JObject props) =
      (case (?q, ?l, ?r, ?t) of
         (Inr qv, Inr lv, Inr rv, Inr tv) \<Rightarrow>
           Inr \<lparr>query = qv, location = lv, radius = rv, type = tv\<rparr>
       | _ \<Rightarrow> Inl (issuesOf ?q @ issuesOf ?l @ issuesOf ?r @ issuesOf ?t))"
    by (simp add: SearchPlacesSchema_def Let_def)
  note q = query_schema_cases [of "map_of props ''query''" dm "[''query'']"]
  note l = optional_string_cases [of "map_of props ''location''" dm "[''location'']"]
  note r = radius_schema_cases [of "map_of props ''radius''" dm "[''radius'']"]
  note t = optional_string_cases [of "map_of props ''type''" dm "[''type'']"]
  show ?thesis
  proof (cases "validQuery (map_of props ''query'') \<and> validOptionalString (map_of props ''location'')
         \<and> validRadius (map_of props ''radius'') \<and> validOptionalString (map_of props ''type'')")
    case True
    with q obtain s where s: "map_of props ''query'' = Some (JString s)" "?q = Inr s" by blast
    from True l obtain lv where lv: "?l = Inr lv"
      "case lv of None \<Rightarrow> map_of props ''location'' = None
       | Some s \<Rightarrow> map_of props ''location'' = Some (JString s)" by blast
    from True r have rv: "?r = Inr (radiusOrDefault (map_of props ''radius''))" by blast
    from True t obtain tv where tv: "?t = Inr tv"
      "case tv of None \<Rightarrow> map_of props ''type'' = None
       | Some s \<Rightarrow> map_of props ''type'' = Some (JString s)" by blast
    have l': "(case map_of props ''location'' of Some (JString s) \<Rightarrow> Some s | _ \<Rightarrow> None) = lv"
      using lv(2) by (cases lv) simp_all
    have t': "(case map_of props ''type'' of Some (JString s) \<Rightarrow> Some s | _ \<Rightarrow> None) = tv"
      using tv(2) by (cases tv) simp_all
    show ?thesis
      unfolding unfold using True s lv(1) rv tv(1) l' t' by simp
  next
    case False
    then have "(\<exists>i. ?q = Inl i) \<or> (\<exists>i. ?l = Inl i) \<or> (\<exists>i. ?r = Inl i) \<or> (\<exists>i. ?t = Inl i)"
      using q l r t by blast
    then have "(case (?q, ?l, ?r, ?t) of
         (Inr qv, Inr lv, Inr rv, Inr tv) \<Rightarrow>
           Inr \<lparr>query = qv, location = lv, radius = rv, type = tv\<rparr>
       | _ \<Rightarrow> Inl (issuesOf ?q @ issuesOf ?l @ issuesOf ?r @ issuesOf ?t)) =
       Inl (issuesOf ?q @ issuesOf ?l @ issuesOf ?r @ issuesOf ?t)"
      by (auto split: sum.splits)
    with False show ?thesis unfolding unfold by simp
  qed
qed

lemma SearchPlacesSchema_not_object:
  "(\<forall>props. body \<noteq> JObject props) \<Longrightarrow>
   SearchPlacesSchema dm body =
     Inl [\<lparr>code = invalid_type, path = [], message = dm invalid_type (Some body)\<rparr>]"
  by (cases body) (simp_all add: SearchPlacesSchema_def)

lemma issues_report:
  assumes "s = Inl issues" "issues \<noteq> []" "\<forall>i \<in> set issues. ZodIssue.path i = p"
  shows "p \<in> ZodIssue.path ` set (issuesOf s)"
proof -
  from assms(2) obtain i where "i \<in> set issues" by (cases issues) auto
  with assms(1,3) show ?thesis by (auto simp: image_iff)
qed

text \<open>
  C7 (as amended). The search-places validator accepts a body exactly when the body is an
  object, \<open>query\<close> is a non-empty string of at most 500 characters, \<open>radius\<close>, when
  present, is a number in \<open>[1, 50000]\<close>, and \<open>location\<close> and \<open>type\<close>, when present, are
  strings; the accepted request has the given \<open>radius\<close> or 5000. On a failure the list of
  issues is not empty, the answer is the 400 \<open>VALIDATION_ERROR\<close> envelope whose details
  are the issues as \<open>{path, message}\<close>, and every one of the four properties that breaks
  its constraint has an issue at its path; an empty \<open>query\<close> is reported as
  \<open>Query is required\<close> and one of more than 500 characters as \<open>Query too long\<close>.
\<close>

theorem SearchPlacesSchema_validation:
  "((\<exists>request. SearchPlacesSchema dm body = Inr request) \<longleftrightarrow>
      (\<exists>props. body = JObject props
         \<and> validQuery (map_of props ''query'') \<and> validRadius (map_of props ''radius'')
         \<and> validOptionalString (map_of props ''location'')
         \<and> validOptionalString (map_of props ''type'')))
   \<and> (\<forall>props request. body = JObject props \<and> SearchPlacesSchema dm body = Inr request \<longrightarrow>
         radius request = radiusOrDefault (map_of props ''radius'')
         \<and> map_of props ''query'' = Some (JString (query request)))
   \<and> (\<forall>issues. SearchPlacesSchema dm body = Inl issues \<longrightarrow>
         issues \<noteq> []
       \<and> searchPlacesValidation dm body =
           Inl (\<lparr>error = ''VALIDATION_ERROR'', message = ''Invalid request parameters'',
                 statusCode = 400,
                 details = Some (map (\<lambda>e. \<lparr>ErrorDetail.path = joinDot (ZodIssue.path e),
                                            message = ZodIssue.message e\<rparr>) issues)\<rparr>, 400)
       \<and> (\<forall>props. body = JObject props \<longrightarrow>
             (\<not> validQuery (map_of props ''query'') \<longrightarrow>
                [''query''] \<in> ZodIssue.path ` set issues)
           \<and> (\<not> validRadius (map_of props ''radius'') \<longrightarrow>
                [''radius''] \<in> ZodIssue.path ` set issues)
           \<and> (\<not> validOptionalString (map_of props ''location'') \<longrightarrow>
                [''location''] \<in> ZodIssue.path ` set issues)
           \<and> (\<not> validOptionalString (map_of props ''type'') \<longrightarrow>
                [''type''] \<in> ZodIssue.path ` set issues)
           \<and> (map_of props ''query'' = Some (JString []) \<longrightarrow>
                \<lparr>code = too_small, path = [''query''], message = ''Query is required''\<rparr>
                  \<in> set issues)
           \<and> (\<forall>s. map_of props ''query'' = Some (JString s) \<and> length s > 500 \<longrightarrow>
                \<lparr>code = too_big, path = [''query''], message = ''Query too long''\<rparr>
                  \<in> set issues)))"
proof -
  have accept: "(\<exists>request. SearchPlacesSchema dm body = Inr request) \<longleftrightarrow>
      (\<exists>props. body = JObject props
         \<and> validQuery (map_of props ''query'') \<and> validRadius (map_of props ''radius'')
         \<and> validOptionalString (map_of props ''location'')
         \<and> validOptionalString (map_of props ''type''))"
  proof (cases "\<exists>props. body = JObject props")
    case True
    then obtain props where "body = JObject props" by blast
    then show ?thesis by (simp add: SearchPlacesSchema_object)
  next
    case False
    then have "\<forall>props. body \<noteq> JObject props" by blast
    from SearchPlacesSchema_not_object [OF this] False show ?thesis by simp
  qed
  have request: "radius request = radiusOrDefault (map_of props ''radius'')
      \<and> map_of props ''query'' = Some (JString (query request))"
    if "body = JObject props" "SearchPlacesSchema dm body = Inr request" for props request
  proof -
    from that have valid: "validQuery (map_of props ''query'')"
      and req: "request =
        \<lparr>query = (case map_of props ''query'' of Some (JString s) \<Rightarrow> s | _ \<Rightarrow> []),
         location = (case map_of props ''location'' of Some (JString s) \<Rightarrow> Some s | _ \<Rightarrow> None),
         radius = radiusOrDefault (map_of props ''radius''),
         type = (case map_of props ''type'' of Some (JString s) \<Rightarrow> Some s | _ \<Rightarrow> None)\<rparr>"
      by (auto simp: SearchPlacesSchema_object split: if_splits)
    from valid obtain s where "map_of props ''query'' = Some (JString s)"
      by (cases "map_of props ''query''" rule: validQuery.cases) simp_all
    with req show ?thesis by simp
  qed
  have reject: "issues \<noteq> []
       \<and> searchPlacesValidation dm body =
           Inl (\<lparr>error = ''VALIDATION_ERROR'', message = ''Invalid request parameters'',
                 statusCode = 400,
                 details = Some (map (\<lambda>e. \<lparr>ErrorDetail.path = joinDot (ZodIssue.path e),
                                            message = ZodIssue.message e\<rparr>) issues)\<rparr>, 400)
       \<and> (\<forall>props. body = JObject props \<longrightarrow>
             (\<not> validQuery (map_of props ''query'') \<longrightarrow>
                [''query''] \<in> ZodIssue.path ` set issues)
           \<and> (\<not> validRadius (map_of props ''radius'') \<longrightarrow>
                [''radius''] \<in> ZodIssue.path ` set issues)
           \<and> (\<not> validOptionalString (map_of props ''location'') \<longrightarrow>
                [''location''] \<in> ZodIssue.path ` set issues)
           \<and> (\<not> validOptionalString (map_of props ''type'') \<longrightarrow>
                [''type''] \<in> ZodIssue.path ` set issues)
           \<and> (map_of props ''query'' = Some (JString []) \<longrightarrow>
                \<lparr>code = too_small, path = [''query''], message = ''Query is required''\<rparr>
                  \<in> set issues)
           \<and> (\<forall>s. map_of props ''query'' = Some (JString s) \<and> length s > 500 \<longrightarrow>
                \<lparr>code = too_big, path = [''query''], message = ''Query too long''\<rparr>
                  \<in> set issues))"
    if fail: "SearchPlacesSchema dm body = Inl issues" for issues
  proof -
    have envelope: "searchPlacesValidation dm body =
           Inl (\<lparr>error = ''VALIDATION_ERROR'', message = ''Invalid request parameters'',
                 statusCode = 400,
                 details = Some (map (\<lambda>e. \<lparr>ErrorDetail.path = joinDot (ZodIssue.path e),
                                            message = ZodIssue.message e\<rparr>) issues)\<rparr>, 400)"
      using fail by (simp add: searchPlacesValidation_def)
    show ?thesis
    proof (cases "\<exists>props. body = JObject props")
      case False
      then have "\<forall>props. body \<noteq> JObject props" by blast
      from SearchPlacesSchema_not_object [OF this] fail have "issues \<noteq> []" by auto
      with envelope False show ?thesis by blast
    next
      case True
      then obtain props where body: "body = JObject props" by blast
      let ?q = "query_schema dm [''query''] (map_of props ''query'')"
      let ?l = "z_optional (z_string dm []) [''location''] (map_of props ''location'')"
      let ?r = "radius_schema dm [''radius''] (map_of props ''radius'')"
      let ?t = "z_optional (z_string dm []) [''type''] (map_of props ''type'')"
      from fail body have invalid:
        "\<not> (validQuery (map_of props ''query'') \<and> validOptionalString (map_of props ''location'')
           \<and> validRadius (map_of props ''radius'') \<and> validOptionalString (map_of props ''type''))"
        and issues: "issues = issuesOf ?q @ issuesOf ?l @ issuesOf ?r @ issuesOf ?t"
        by (auto simp: SearchPlacesSchema_object split: if_splits)
      note q = query_schema_cases [of "map_of props ''query''" dm "[''query'']"]
      note l = optional_string_cases [of "map_of props ''location''" dm "[''location'']"]
      note r = radius_schema_cases [of "map_of props ''radius''" dm "[''radius'']"]
      note t = optional_string_cases [of "map_of props ''type''" dm "[''type'']"]
      have rq: "[''query''] \<in> ZodIssue.path ` set issues" if "\<not> validQuery (map_of props ''query'')"
      proof -
        from q that obtain part where "?q = Inl part" "part \<noteq> []"
          "\<forall>i \<in> set part. ZodIssue.path i = [''query'']" by blast
        then have "[''query''] \<in> ZodIssue.path ` set (issuesOf ?q)"
          by (rule issues_report)
        moreover have "set (issuesOf ?q) \<subseteq> set issues"
          unfolding issues by auto
        ultimately show ?thesis by blast
      qed
      have rl: "[''location''] \<in> ZodIssue.path ` set issues" if "\<not> validOptionalString (map_of props ''location'')"
      proof -
        from l that obtain part where "?l = Inl part" "part \<noteq> []"
          "\<forall>i \<in> set part. ZodIssue.path i = [''location'']" by blast
        then have "[''location''] \<in> ZodIssue.path ` set (issuesOf ?l)"
          by (rule issues_report)
        moreover have "set (issuesOf ?l) \<subseteq> set issues"
          unfolding issues by auto
        ultimately show ?thesis by blast
      qed
      have rr: "[''radius''] \<in> ZodIssue.path ` set issues" if "\<not> validRadius (map_of props ''radius'')"
      proof -
        from r that obtain part where "?r = Inl part" "part \<noteq> []"
          "\<forall>i \<in> set part. ZodIssue.path i = [''radius'']" by blast
        then have "[''radius''] \<in> ZodIssue.path ` set (issuesOf ?r)"
          by (rule issues_report)
        moreover have "set (issuesOf ?r) \<subseteq> set issues"
          unfolding issues by auto
        ultimately show ?thesis by blast
      qed
      have rt: "[''type''] \<in> ZodIssue.path ` set issues" if "\<not> validOptionalString (map_of props ''type'')"
      proof -
        from t that obtain part where "?t = Inl part" "part \<noteq> []"
          "\<forall>i \<in> set part. ZodIssue.path i = [''type'']" by blast
        then have "[''type''] \<in> ZodIssue.path ` set (issuesOf ?t)"
          by (rule issues_report)
        moreover have "set (issuesOf ?t) \<subseteq> set issues"
          unfolding issues by auto
        ultimately show ?thesis by blast
      qed
      from invalid rq rl rr rt have ne: "issues \<noteq> []" by auto
      have empty: "\<lparr>code = too_small, path = [''query''], message = ''Query is required''\<rparr>
          \<in> set issues" if "map_of props ''query'' = Some (JString [])"
        using that issues by (simp add: query_schema_def z_string_def)
      have long: "\<lparr>code = too_big, path = [''query''], message = ''Query too long''\<rparr>
          \<in> set issues" if "map_of props ''query'' = Some (JString s)" "length s > 500" for s
        using that issues by (simp add: query_schema_def z_string_def Let_def)
      from body ne envelope rq rl rr rt empty long show ?thesis by blast
    qed
  qed
  from accept request reject show ?thesis by blast
qed

theorem SearchPlacesSchema_validation_witness:
  "SearchPlacesSchema (\<lambda>c v. ''Invalid input'') (JObject [(''query'', JString ''coffee'')]) =
     Inr \<lparr>query = ''coffee'', location = None, radius = 5000, type = None\<rparr>
   \<and> searchPlacesValidation (\<lambda>c v. ''Invalid input'')
       (JObject [(''query'', JString []), (''radius'', JNumber 0)]) =
       Inl (\<lparr>error = ''VALIDATION_ERROR'', message = ''Invalid request parameters'',
             statusCode = 400,
             details = Some [\<lparr>ErrorDetail.path = ''query'', message = ''Query is required''\<rparr>,
                             \<lparr>ErrorDetail.path = ''radius'', message = ''Invalid input''\<rparr>]\<rparr>,
            400)"
proof -
  let ?dm = "\<lambda>(c :: issue_code) (v :: json option). ''Invalid input''"
  let ?good = "JObject [(''query'', JString ''coffee'')]"
  let ?bad = "JObject [(''query'', JString []), (''radius'', JNumber 0)]"
  let ?issues = "[\<lparr>code = too_small, path = [''query''], message = ''Query is required''\<rparr>,
                  \<lparr>code = too_small, path = [''radius''], message = ''Invalid input''\<rparr>]"
  have ok: "\<exists>props. ?good = JObject props
         \<and> validQuery (map_of props ''query'') \<and> validRadius (map_of props ''radius'')
         \<and> validOptionalString (map_of props ''location'')
         \<and> validOptionalString (map_of props ''type'')" by simp
  with SearchPlacesSchema_validation [of ?dm ?good]
  obtain request where request: "SearchPlacesSchema ?dm ?good = Inr request" by blast
  with SearchPlacesSchema_validation [of ?dm ?good]
  have "radius request = radiusOrDefault (map_of [(''query'', JString ''coffee'')] ''radius'')"
    by blast
  then have "radius request = 5000" by simp
  with request have 1: "SearchPlacesSchema ?dm ?good =
      Inr \<lparr>query = ''coffee'', location = None, radius = 5000, type = None\<rparr>"
    by (simp add: SearchPlacesSchema_object)
  have fail: "SearchPlacesSchema ?dm ?bad = Inl ?issues"
    by (simp add: SearchPlacesSchema_object query_schema_def radius_schema_def z_string_def
        z_number_def z_optional_def z_default_def)
  with SearchPlacesSchema_validation [of ?dm ?bad]
  have "searchPlacesValidation ?dm ?bad =
      Inl (\<lparr>error = ''VALIDATION_ERROR'', message = ''Invalid request parameters'',
            statusCode = 400,
            details = Some (map (\<lambda>e. \<lparr>ErrorDetail.path = joinDot (ZodIssue.path e),
                                       message = ZodIssue.message e\<rparr>) ?issues)\<rparr>, 400)"
    by blast
  then have 2: "searchPlacesValidation ?dm ?bad =
       Inl (\<lparr>error = ''VALIDATION_ERROR'', message = ''Invalid request parameters'',
             statusCode = 400,
             details = Some [\<lparr>ErrorDetail.path = ''query'', message = ''Query is required''\<rparr>,
                             \<lparr>ErrorDetail.path = ''radius'', message = ''Invalid input''\<rparr>]\<rparr>,
            400)" by simp
  from 1 2 show ?thesis by blast
qed

theorem SearchPlacesSchema_validation_counterexample:
  "validQuery (Some (JString ''coffee'')) \<and> validRadius None
   \<and> SearchPlacesSchema (\<lambda>c v. ''Invalid input'')
       (JObject [(''query'', JString ''coffee''), (''location'', JNumber 123)]) =
       Inl [\<lparr>code = invalid_type, path = [''location''], message = ''Invalid input''\<rparr>]"
  by (simp add: SearchPlacesSchema_object query_schema_def radius_schema_def z_string_def
      z_optional_def z_default_def)

end
